theory Spec2Isabelle
  imports Main "HOL-Library.Sublist"
begin

section \<open>The Udagram infrastructure scripts, \<^verbatim>\<open>create.py\<close> and \<^verbatim>\<open>delete.py\<close>\<close>

text \<open>
  Both scripts are sequential orchestration code around external services: the
  CloudFormation client, the S3 client and resource, the local file system and the
  operator's terminal. The embedding makes every effect explicit.

  \<^item> A Python exception is a value of \<open>exn\<close>; a computation yields \<open>Ok v\<close>,
    \<open>Raised e\<close> or \<open>Exit n\<close> (\<^verbatim>\<open>sys.exit(n)\<close>, which no \<^verbatim>\<open>except\<close> clause of the
    scripts catches, \<^verbatim>\<open>SystemExit\<close> not being an \<^verbatim>\<open>Exception\<close>).
  \<^item> The outside world is a tape of responses: the list of what the successive external
    calls return or raise, consumed in call order. A run is a function of its tape, and a
    property proved for all tapes holds whatever the services answer.
  \<^item> Every external call and every \<^verbatim>\<open>print\<close> is appended to a trace, so that what a
    run did, and in which order, can be read off afterwards.
  \<^item> Text is a list of bytes (UTF-8); \<^verbatim>\<open>strip\<close> strips the whitespace of Unicode,
    \<^verbatim>\<open>lower\<close> lowers the letters of ASCII.
\<close>

subsection \<open>Exceptions and results\<close>

datatype exn =
    ClientError string
  | WaiterError string
  | FileNotFoundError string
  | IndexError string
  | KeyboardInterrupt
  | OtherException string

text \<open>\<^verbatim>\<open>str(e)\<close>: every exception carries its message.\<close>

fun str_exn :: "exn \<Rightarrow> string" where
  "str_exn (ClientError m) = m"
| "str_exn (WaiterError m) = m"
| "str_exn (FileNotFoundError m) = m"
| "str_exn (IndexError m) = m"
| "str_exn KeyboardInterrupt = []"
| "str_exn (OtherException m) = m"

text \<open>\<^verbatim>\<open>except Exception\<close> catches everything but \<^verbatim>\<open>KeyboardInterrupt\<close>.\<close>

fun is_Exception :: "exn \<Rightarrow> bool" where
  "is_Exception KeyboardInterrupt = False"
| "is_Exception _ = True"

datatype 'a result = Ok 'a | Raised exn | Exit nat

subsection \<open>Data of the remote services\<close>

text \<open>
  A stack output: \<^verbatim>\<open>output['OutputKey']\<close> and \<^verbatim>\<open>output['OutputValue']\<close> are read by
  index, \<^verbatim>\<open>'Description'\<close> is tested for presence.
\<close>

record stack_output =
  OutputKey :: string
  OutputValue :: string
  Description :: "string option"

text \<open>
  A described stack: \<^verbatim>\<open>['StackStatus']\<close> is read by index,
  \<^verbatim>\<open>.get('Outputs', [])\<close> may be absent.
\<close>

record stack =
  StackStatus :: string
  Outputs :: "stack_output list option"

text \<open>
  A stack event: \<^verbatim>\<open>event['LogicalResourceId']\<close> by index, the two others through
  \<^verbatim>\<open>.get\<close> with a default.
\<close>

record stack_event =
  LogicalResourceId :: string
  ResourceStatus :: "string option"
  ResourceStatusReason :: "string option"

text \<open>The parsed parameter file; the scripts pass it on without looking into it.\<close>

type_synonym parameters = "(string \<times> string) list"

text \<open>What one poll of a waiter finds: its acceptors' verdict on the stack's status.\<close>

datatype waiter_state = Success | Failure | Retry

subsection \<open>External calls, responses, the trace\<close>

datatype call =
    OpenRead string
  | JsonLoad string
  | Input string
  | DescribeStacks string
  | CreateStack string string parameters "string list" "(string \<times> string) list"
  | DeleteStack string
  | DescribeStackEvents string
  | WaiterWait string string nat nat
  | WaiterPoll string string
  | Sleep nat
  | UploadFile string string string "(string \<times> string) list"
  | ObjectsDelete string
  | ObjectVersionsDelete string

datatype response =
    Raises exn
  | Content string
  | Parameters parameters
  | Answer string
  | Stacks "stack list"
  | StackId string
  | StackEvents "stack_event list"
  | Status waiter_state
  | Done

text \<open>
  A trace entry is a printed line, or an external call with whether it returned
  (\<open>True\<close>) or raised (\<open>False\<close>).
\<close>

datatype event = Print string | Call call bool

record st =
  tape :: "response list"
  trace :: "event list"

type_synonym 'a prog = "st \<Rightarrow> 'a result \<times> st"

definition emit :: "event \<Rightarrow> st \<Rightarrow> st" where
  "emit ev s = s\<lparr>trace := trace s @ [ev]\<rparr>"

subsection \<open>Sequencing\<close>

definition ret :: "'a \<Rightarrow> 'a prog" where
  "ret a s = (Ok a, s)"

definition raise :: "exn \<Rightarrow> 'a prog" where
  "raise e s = (Raised e, s)"

definition sys_exit :: "nat \<Rightarrow> 'a prog" where
  "sys_exit n s = (Exit n, s)"

definition pbind :: "'a prog \<Rightarrow> ('a \<Rightarrow> 'b prog) \<Rightarrow> 'b prog" where
  "pbind m f s =
     (case m s of
        (Ok a, s1) \<Rightarrow> f a s1
      | (Raised e, s1) \<Rightarrow> (Raised e, s1)
      | (Exit n, s1) \<Rightarrow> (Exit n, s1))"

definition pthen :: "'a prog \<Rightarrow> 'b prog \<Rightarrow> 'b prog" where
  "pthen m k = pbind m (\<lambda>_. k)"

text \<open>\<^verbatim>\<open>try: m  except ...: h e\<close>; the handler re-raises what no clause catches.\<close>

definition try_except :: "'a prog \<Rightarrow> (exn \<Rightarrow> 'a prog) \<Rightarrow> 'a prog" where
  "try_except m h s =
     (case m s of
        (Ok a, s1) \<Rightarrow> (Ok a, s1)
      | (Raised e, s1) \<Rightarrow> h e s1
      | (Exit n, s1) \<Rightarrow> (Exit n, s1))"

text \<open>\<^verbatim>\<open>if c: m\<close> with no \<^verbatim>\<open>else\<close>.\<close>

definition if_then :: "bool \<Rightarrow> unit prog \<Rightarrow> unit prog" where
  "if_then c m = (if c then m else ret ())"

definition print :: "string \<Rightarrow> unit prog" where
  "print line s = (Ok (), emit (Print line) s)"

text \<open>
  An external call takes the next response off the tape. A response that raises, a
  response of another call's kind and an exhausted tape all make the call raise; the
  last two stand for any failure of the client library itself.
\<close>

definition external :: "call \<Rightarrow> (response \<Rightarrow> 'a option) \<Rightarrow> 'a prog" where
  "external c decode s =
     (case tape s of
        [] \<Rightarrow> (Raised (OtherException ''no response''), emit (Call c False) s)
      | r # rs \<Rightarrow>
          (case r of
             Raises e \<Rightarrow> (Raised e, emit (Call c False) (s\<lparr>tape := rs\<rparr>))
           | _ \<Rightarrow>
               (case decode r of
                  Some a \<Rightarrow> (Ok a, emit (Call c True) (s\<lparr>tape := rs\<rparr>))
                | None \<Rightarrow> (Raised (OtherException ''unexpected response''),
                           emit (Call c False) (s\<lparr>tape := rs\<rparr>)))))"

fun the_Content :: "response \<Rightarrow> string option" where
  "the_Content (Content c) = Some c"
| "the_Content _ = None"

fun the_Parameters :: "response \<Rightarrow> parameters option" where
  "the_Parameters (Parameters p) = Some p"
| "the_Parameters _ = None"

fun the_Answer :: "response \<Rightarrow> string option" where
  "the_Answer (Answer a) = Some a"
| "the_Answer _ = None"

fun the_Stacks :: "response \<Rightarrow> stack list option" where
  "the_Stacks (Stacks ss) = Some ss"
| "the_Stacks _ = None"

fun the_StackId :: "response \<Rightarrow> string option" where
  "the_StackId (StackId i) = Some i"
| "the_StackId _ = None"

fun the_StackEvents :: "response \<Rightarrow> stack_event list option" where
  "the_StackEvents (StackEvents es) = Some es"
| "the_StackEvents _ = None"

fun the_Status :: "response \<Rightarrow> waiter_state option" where
  "the_Status (Status w) = Some w"
| "the_Status _ = None"

fun the_Done :: "response \<Rightarrow> unit option" where
  "the_Done Done = Some ()"
| "the_Done _ = None"

subsection \<open>Configuration (the constants at the head of both scripts)\<close>

definition NETWORK_STACK_NAME :: string where "NETWORK_STACK_NAME = ''udagram-network''"
definition APP_STACK_NAME :: string where "APP_STACK_NAME = ''udagram-app''"
definition NETWORK_TEMPLATE :: string where "NETWORK_TEMPLATE = ''network.yml''"
definition NETWORK_PARAMETERS :: string where "NETWORK_PARAMETERS = ''network-parameters.json''"
definition APP_TEMPLATE :: string where "APP_TEMPLATE = ''udagram.yml''"
definition APP_PARAMETERS :: string where "APP_PARAMETERS = ''udagram-parameters.json''"
definition STATIC_CONTENT_FILE :: string where "STATIC_CONTENT_FILE = ''static-content/index.html''"
definition REGION :: string where "REGION = ''us-east-1''"

subsection \<open>The status reporter (both scripts)\<close>

definition newline :: string where "newline = [CHR 0x0A]"

text \<open>The four marks, as their UTF-8 bytes: U+2713, U+2717, U+2139, U+26A0.\<close>

definition check_mark :: string where "check_mark = [CHR 0xE2, CHR 0x9C, CHR 0x93]"
definition ballot_x :: string where "ballot_x = [CHR 0xE2, CHR 0x9C, CHR 0x97]"
definition info_mark :: string where "info_mark = [CHR 0xE2, CHR 0x84, CHR 0xB9]"
definition warning_mark :: string where "warning_mark = [CHR 0xE2, CHR 0x9A, CHR 0xA0]"

definition rule70 :: string where "rule70 = replicate 70 (CHR ''='')"

definition print_section :: "string \<Rightarrow> unit prog" where
  "print_section message =
     pthen (print (newline @ rule70))
    (pthen (print (''  '' @ message))
           (print rule70))"

definition print_success :: "string \<Rightarrow> unit prog" where
  "print_success message = print (check_mark @ '' '' @ message)"

definition print_error :: "string \<Rightarrow> unit prog" where
  "print_error message = print (ballot_x @ '' ERROR: '' @ message)"

definition print_info :: "string \<Rightarrow> unit prog" where
  "print_info message = print (info_mark @ '' '' @ message)"

definition print_warning :: "string \<Rightarrow> unit prog" where
  "print_warning message = print (warning_mark @ '' WARNING: '' @ message)"

subsection \<open>Python helpers\<close>

text \<open>A sequence of statements.\<close>

fun block :: "unit prog list \<Rightarrow> unit prog" where
  "block [] = ret ()"
| "block (m # ms) = pthen m (block ms)"

text \<open>\<^verbatim>\<open>d.get(key, default)\<close> on an optional field.\<close>

fun dict_get :: "'a option \<Rightarrow> 'a \<Rightarrow> 'a" where
  "dict_get None d = d"
| "dict_get (Some v) d = v"

text \<open>\<^verbatim>\<open>response['Stacks'][0]\<close>: an empty list raises \<^verbatim>\<open>IndexError\<close>.\<close>

fun first_stack :: "stack list \<Rightarrow> stack prog" where
  "first_stack [] = raise (IndexError ''list index out of range'')"
| "first_stack (x # xs) = ret x"

text \<open>
  \<^verbatim>\<open>str.lower\<close>, on the letters of ASCII. The letters outside ASCII are left as they are:
  none of them has a lowercase form that holds \<^verbatim>\<open>y\<close>, \<^verbatim>\<open>e\<close>, \<^verbatim>\<open>s\<close> or whitespace, so the
  confirmation, the one place that lowercases, decides every answer as Python does.
\<close>

definition lower_char :: "char \<Rightarrow> char" where
  "lower_char c =
     (let n = (of_char c :: nat) in if 65 \<le> n \<and> n \<le> 90 then char_of (n + 32) else c)"

definition lower :: "string \<Rightarrow> string" where
  "lower s = map lower_char s"

text \<open>
  \<^verbatim>\<open>str.strip\<close> removes the whitespace characters of Unicode from both ends. These are,
  as UTF-8: U+0009 to U+000D, U+001C to U+0020, U+0085, U+00A0, U+1680, U+2000 to U+200A,
  U+2028, U+2029, U+202F, U+205F and U+3000. No encoding of a character is the beginning
  or the end of the encoding of another one, so stripping the encodings off the bytes
  strips the characters off the text.
\<close>

definition whitespace :: "string list" where
  "whitespace =
     [[CHR 0x09], [CHR 0x0A], [CHR 0x0B], [CHR 0x0C], [CHR 0x0D],
      [CHR 0x1C], [CHR 0x1D], [CHR 0x1E], [CHR 0x1F], [CHR 0x20],
      [CHR 0xC2, CHR 0x85], [CHR 0xC2, CHR 0xA0], [CHR 0xE1, CHR 0x9A, CHR 0x80],
      [CHR 0xE2, CHR 0x80, CHR 0x80], [CHR 0xE2, CHR 0x80, CHR 0x81],
      [CHR 0xE2, CHR 0x80, CHR 0x82], [CHR 0xE2, CHR 0x80, CHR 0x83],
      [CHR 0xE2, CHR 0x80, CHR 0x84], [CHR 0xE2, CHR 0x80, CHR 0x85],
      [CHR 0xE2, CHR 0x80, CHR 0x86], [CHR 0xE2, CHR 0x80, CHR 0x87],
      [CHR 0xE2, CHR 0x80, CHR 0x88], [CHR 0xE2, CHR 0x80, CHR 0x89],
      [CHR 0xE2, CHR 0x80, CHR 0x8A], [CHR 0xE2, CHR 0x80, CHR 0xA8],
      [CHR 0xE2, CHR 0x80, CHR 0xA9], [CHR 0xE2, CHR 0x80, CHR 0xAF],
      [CHR 0xE2, CHR 0x81, CHR 0x9F], [CHR 0xE3, CHR 0x80, CHR 0x80]]"

text \<open>Taking the sequences \<open>ws\<close> off the front of \<open>s\<close> for as long as one of them is there.\<close>

function strip_left :: "string list \<Rightarrow> string \<Rightarrow> string" where
  "strip_left ws s =
     (case find (\<lambda>w. w \<noteq> [] \<and> prefix w s) ws of
        Some w \<Rightarrow> strip_left ws (drop (length w) s)
      | None \<Rightarrow> s)"
  by pat_completeness auto
termination
  by (relation "measure (\<lambda>(ws, s). length s)") (auto simp: find_Some_iff prefix_def)

declare strip_left.simps [simp del]

definition lstrip :: "string \<Rightarrow> string" where
  "lstrip s = strip_left whitespace s"

definition rstrip :: "string \<Rightarrow> string" where
  "rstrip s = rev (strip_left (map rev whitespace) (rev s))"

definition strip :: "string \<Rightarrow> string" where
  "strip s = rstrip (lstrip s)"

definition apostrophe :: string where "apostrophe = [CHR 0x27]"

subsection \<open>The client library\<close>

definition open_read :: "string \<Rightarrow> string prog" where
  "open_read path = external (OpenRead path) the_Content"

definition json_load :: "string \<Rightarrow> parameters prog" where
  "json_load path = external (JsonLoad path) the_Parameters"

definition input :: "string \<Rightarrow> string prog" where
  "input prompt = external (Input prompt) the_Answer"

definition describe_stacks :: "string \<Rightarrow> stack list prog" where
  "describe_stacks name = external (DescribeStacks name) the_Stacks"

definition describe_stack_events :: "string \<Rightarrow> stack_event list prog" where
  "describe_stack_events name = external (DescribeStackEvents name) the_StackEvents"

definition cf_create_stack ::
  "string \<Rightarrow> string \<Rightarrow> parameters \<Rightarrow> string list \<Rightarrow> (string \<times> string) list \<Rightarrow> string prog" where
  "cf_create_stack name body params caps tags =
     external (CreateStack name body params caps tags) the_StackId"

definition cf_delete_stack :: "string \<Rightarrow> unit prog" where
  "cf_delete_stack name = external (DeleteStack name) the_Done"

definition upload_file :: "string \<Rightarrow> string \<Rightarrow> string \<Rightarrow> (string \<times> string) list \<Rightarrow> unit prog" where
  "upload_file path bucket key extra = external (UploadFile path bucket key extra) the_Done"

definition objects_all_delete :: "string \<Rightarrow> unit prog" where
  "objects_all_delete bucket = external (ObjectsDelete bucket) the_Done"

definition object_versions_all_delete :: "string \<Rightarrow> unit prog" where
  "object_versions_all_delete bucket = external (ObjectVersionsDelete bucket) the_Done"

definition sleep :: "nat \<Rightarrow> unit prog" where
  "sleep d s = (Ok (), emit (Call (Sleep d) True) s)"

text \<open>
  Modelled from the spec: the waiter (\<^verbatim>\<open>cloudformation.get_waiter(...).wait\<close>) belongs to
  the client library, which is not part of the repository. Following the spec's
  \<^verbatim>\<open>await_terminal(name, poll_interval, max_attempts) -> success|timeout|failure\<close>, it
  ``polls status on a fixed interval until a terminal state is reached or attempts are
  exhausted''. One poll asks for the stack's status and yields the waiter's verdict on
  it; an error response that no acceptor takes ends the wait with \<^verbatim>\<open>WaiterError\<close>.
  The loop polls, returns on \<open>Success\<close>, raises \<^verbatim>\<open>WaiterError\<close> on \<open>Failure\<close>, and on
  \<open>Retry\<close> raises \<^verbatim>\<open>WaiterError\<close> when no attempt is left and otherwise sleeps the delay
  and polls again. \<open>left\<close> counts the attempts that remain after the current one.
\<close>

definition waiter_error :: "string \<Rightarrow> string \<Rightarrow> exn" where
  "waiter_error w reason = WaiterError (''Waiter '' @ w @ '' failed: '' @ reason)"

definition waiter_poll :: "string \<Rightarrow> string \<Rightarrow> waiter_state prog" where
  "waiter_poll w name =
     try_except (external (WaiterPoll w name) the_Status)
       (\<lambda>e. case e of
          ClientError m \<Rightarrow> raise (waiter_error w (''An error occurred: '' @ m))
        | _ \<Rightarrow> raise e)"

fun waiter_loop :: "string \<Rightarrow> string \<Rightarrow> nat \<Rightarrow> nat \<Rightarrow> unit prog" where
  "waiter_loop w name delay 0 =
     pbind (waiter_poll w name) (\<lambda>v.
       case v of
         Success \<Rightarrow> ret ()
       | Failure \<Rightarrow> raise (waiter_error w ''Waiter encountered a terminal failure state'')
       | Retry \<Rightarrow> raise (waiter_error w ''Max attempts exceeded''))"
| "waiter_loop w name delay (Suc left) =
     pbind (waiter_poll w name) (\<lambda>v.
       case v of
         Success \<Rightarrow> ret ()
       | Failure \<Rightarrow> raise (waiter_error w ''Waiter encountered a terminal failure state'')
       | Retry \<Rightarrow> pthen (sleep delay) (waiter_loop w name delay left))"

definition waiter_wait :: "string \<Rightarrow> string \<Rightarrow> nat \<Rightarrow> nat \<Rightarrow> unit prog" where
  "waiter_wait w name delay max_attempts s =
     (case waiter_loop w name delay (max_attempts - 1) s of
        (r, s1) \<Rightarrow> (r, emit (Call (WaiterWait w name delay max_attempts) (r = Ok ())) s1))"

subsection \<open>Helpers shared by both scripts\<close>

text \<open>The \<^verbatim>\<open>for\<close> loop of \<^verbatim>\<open>get_stack_output\<close>: a linear scan, first match wins.\<close>

fun find_output :: "string \<Rightarrow> stack_output list \<Rightarrow> string option" where
  "find_output output_key [] = None"
| "find_output output_key (x # xs) =
     (if OutputKey x = output_key then Some (OutputValue x) else find_output output_key xs)"

definition get_stack_output :: "string \<Rightarrow> string \<Rightarrow> string option prog" where
  "get_stack_output stack_name output_key =
     try_except
       (pbind (describe_stacks stack_name) (\<lambda>response.
        pbind (first_stack response) (\<lambda>stack0.
          ret (find_output output_key (dict_get (Outputs stack0) [])))))
       (\<lambda>e. case e of
          ClientError m \<Rightarrow>
            pthen (print_error (''Failed to get stack output: '' @ str_exn e)) (ret None)
        | _ \<Rightarrow> raise e)"

text \<open>The event dump of both \<^verbatim>\<open>wait_for_stack_...\<close> functions.\<close>

fun print_failed_events :: "stack_event list \<Rightarrow> unit prog" where
  "print_failed_events [] = ret ()"
| "print_failed_events (ev # evs) =
     pthen
       (if_then (sublist ''FAILED'' (dict_get (ResourceStatus ev) []))
          (print (''  - '' @ LogicalResourceId ev @ '': '' @
                  dict_get (ResourceStatusReason ev) ''Unknown error'')))
       (print_failed_events evs)"

definition dump_stack_events :: "string \<Rightarrow> unit prog" where
  "dump_stack_events stack_name =
     try_except
       (pbind (describe_stack_events stack_name) (\<lambda>events.
        pthen (print (newline @ ''Recent stack events:''))
              (print_failed_events (take 10 events))))
       (\<lambda>e. if is_Exception e then ret () else raise e)"

subsection \<open>\<^verbatim>\<open>create.py\<close>\<close>

definition read_template :: "string \<Rightarrow> string prog" where
  "read_template template_file =
     try_except (open_read template_file)
       (\<lambda>e. case e of
          FileNotFoundError m \<Rightarrow>
            pthen (print_error (''Template file not found: '' @ template_file)) (sys_exit 1)
        | _ \<Rightarrow> raise e)"

definition read_parameters :: "string \<Rightarrow> parameters prog" where
  "read_parameters parameter_file =
     try_except (json_load parameter_file)
       (\<lambda>e. case e of
          FileNotFoundError m \<Rightarrow>
            pthen (print_error (''Parameter file not found: '' @ parameter_file)) (sys_exit 1)
        | _ \<Rightarrow> raise e)"

definition create_stack_exists :: "string \<Rightarrow> bool prog" where
  "create_stack_exists stack_name =
     try_except (pbind (describe_stacks stack_name) (\<lambda>response. ret True))
       (\<lambda>e. case e of
          ClientError m \<Rightarrow> if sublist ''does not exist'' (str_exn e) then ret False else raise e
        | _ \<Rightarrow> raise e)"

definition create_stack :: "string \<Rightarrow> string \<Rightarrow> parameters \<Rightarrow> bool prog" where
  "create_stack stack_name template_body params =
     try_except
       (pthen (print_info (''Creating stack: '' @ stack_name))
       (pbind (cf_create_stack stack_name template_body params
                 [''CAPABILITY_NAMED_IAM'']
                 [(''Project'', ''Udagram''), (''Environment'', ''Production'')]) (\<lambda>stack_id.
        pthen (print_success (''Stack creation initiated: '' @ stack_id))
              (ret True))))
       (\<lambda>e. case e of
          ClientError m \<Rightarrow>
            pthen (print_error (''Failed to create stack: '' @ str_exn e)) (ret False)
        | _ \<Rightarrow> raise e)"

definition wait_for_stack_creation :: "string \<Rightarrow> bool prog" where
  "wait_for_stack_creation stack_name =
     pthen (print_info (''Waiting for stack '' @ stack_name @ '' to be created...''))
    (pthen (print_info ''This may take several minutes. Please be patient.'')
    (try_except
       (pthen (waiter_wait ''stack_create_complete'' stack_name 30 120)
       (pthen (print_success (''Stack '' @ stack_name @ '' created successfully!''))
              (ret True)))
       (\<lambda>e. case e of
          WaiterError m \<Rightarrow>
            pthen (print_error (''Stack creation failed: '' @ str_exn e))
           (pthen (dump_stack_events stack_name)
                  (ret False))
        | _ \<Rightarrow> raise e)))"

definition upload_to_s3 :: "string \<Rightarrow> string \<Rightarrow> string \<Rightarrow> bool prog" where
  "upload_to_s3 bucket_name file_path s3_key =
     try_except
       (pthen (print_info (''Uploading '' @ file_path @ '' to S3 bucket: '' @ bucket_name))
       (pthen (upload_file file_path bucket_name s3_key [(''ContentType'', ''text/html'')])
       (pthen (print_success
                 (''File uploaded successfully to s3://'' @ bucket_name @ ''/'' @ s3_key))
              (ret True))))
       (\<lambda>e. case e of
          FileNotFoundError m \<Rightarrow>
            pthen (print_error (''File not found: '' @ file_path)) (ret False)
        | ClientError m \<Rightarrow>
            pthen (print_error (''Failed to upload to S3: '' @ str_exn e)) (ret False)
        | _ \<Rightarrow> raise e)"

fun print_outputs :: "stack_output list \<Rightarrow> unit prog" where
  "print_outputs [] = ret ()"
| "print_outputs (x # xs) =
     pthen (print (''  '' @ OutputKey x @ '': '' @ OutputValue x))
    (pthen (case Description x of
              Some d \<Rightarrow> print (''    Description: '' @ d)
            | None \<Rightarrow> ret ())
           (print_outputs xs))"

definition display_stack_outputs :: "string \<Rightarrow> unit prog" where
  "display_stack_outputs stack_name =
     try_except
       (pbind (describe_stacks stack_name) (\<lambda>response.
        pbind (first_stack response) (\<lambda>stack0.
          let outputs = dict_get (Outputs stack0) [] in
          if outputs \<noteq> [] then
            pthen (print_section (''Stack Outputs: '' @ stack_name)) (print_outputs outputs)
          else print_info (''No outputs available for stack: '' @ stack_name))))
       (\<lambda>e. case e of
          ClientError m \<Rightarrow> print_error (''Failed to get stack outputs: '' @ str_exn e)
        | _ \<Rightarrow> raise e)"

definition create_main :: "unit prog" where
  "create_main = block [
     print_section ''Udagram Infrastructure Creation'',
     print_info (''Region: '' @ REGION),
     print_info (''Network Stack: '' @ NETWORK_STACK_NAME),
     print_info (''Application Stack: '' @ APP_STACK_NAME),
     pbind (create_stack_exists NETWORK_STACK_NAME) (\<lambda>found.
       if_then found (block [
         print_error (''Stack '' @ NETWORK_STACK_NAME @ '' already exists!''),
         print_info ''Please delete the existing stack first or use a different stack name.'',
         sys_exit 1])),
     pbind (create_stack_exists APP_STACK_NAME) (\<lambda>found.
       if_then found (block [
         print_error (''Stack '' @ APP_STACK_NAME @ '' already exists!''),
         print_info ''Please delete the existing stack first or use a different stack name.'',
         sys_exit 1])),
     print_section ''Step 1: Creating Network Infrastructure'',
     pbind (read_template NETWORK_TEMPLATE) (\<lambda>network_template.
     pbind (read_parameters NETWORK_PARAMETERS) (\<lambda>network_parameters. block [
       pbind (create_stack NETWORK_STACK_NAME network_template network_parameters) (\<lambda>ok.
         if_then (\<not> ok) (block [
           print_error ''Failed to create network stack. Exiting.'',
           sys_exit 1])),
       pbind (wait_for_stack_creation NETWORK_STACK_NAME) (\<lambda>ok.
         if_then (\<not> ok) (block [
           print_error ''Network stack creation failed. Exiting.'',
           sys_exit 1])),
       display_stack_outputs NETWORK_STACK_NAME,
       print_section ''Step 2: Creating Application Infrastructure'',
       pbind (read_template APP_TEMPLATE) (\<lambda>app_template.
       pbind (read_parameters APP_PARAMETERS) (\<lambda>app_parameters. block [
         pbind (create_stack APP_STACK_NAME app_template app_parameters) (\<lambda>ok.
           if_then (\<not> ok) (block [
             print_error ''Failed to create application stack. Exiting.'',
             sys_exit 1])),
         pbind (wait_for_stack_creation APP_STACK_NAME) (\<lambda>ok.
           if_then (\<not> ok) (block [
             print_error ''Application stack creation failed. Exiting.'',
             sys_exit 1])),
         display_stack_outputs APP_STACK_NAME,
         print_section ''Step 3: Uploading Static Content to S3'',
         pbind (get_stack_output APP_STACK_NAME ''S3BucketName'') (\<lambda>s3_bucket_name.
           case s3_bucket_name of
             Some bucket \<Rightarrow>
               if bucket \<noteq> [] then
                 pbind (upload_to_s3 bucket STATIC_CONTENT_FILE ''index.html'') (\<lambda>ok.
                   if ok then print_success ''Static content uploaded successfully!''
                   else block [
                     print_error ''Failed to upload static content.'',
                     print_info ''You can manually upload the file later.''])
               else print_error ''Could not retrieve S3 bucket name from stack outputs.''
           | None \<Rightarrow> print_error ''Could not retrieve S3 bucket name from stack outputs.''),
         print_section ''Infrastructure Creation Complete!'',
         pbind (get_stack_output APP_STACK_NAME ''LoadBalancerURL'') (\<lambda>load_balancer_url.
           case load_balancer_url of
             Some url \<Rightarrow>
               if_then (url \<noteq> []) (block [
                 print_success ''Your application is now available at:'',
                 print (newline @ ''    '' @ url @ newline),
                 print_info ''Note: It may take a few minutes for the instances to become healthy.'',
                 print_info ''The health check grace period is 5 minutes.''])
           | None \<Rightarrow> ret ()),
         print (newline @ rule70),
         print ''  Next Steps:'',
         print ''  1. Wait 5-10 minutes for instances to become healthy'',
         print ''  2. Access your application using the URL above'',
         print (''  3. Verify the page displays: '' @ apostrophe @
                ''It works! Udagram, Udacity'' @ apostrophe),
         print (rule70 @ newline)]))]))]"

text \<open>
  The \<^verbatim>\<open>if __name__ == '__main__'\<close> block: the run's exit code and its trace.
  \<^verbatim>\<open>sys.exit(n)\<close> passes both \<^verbatim>\<open>except\<close> clauses.
\<close>

fun top_level :: "unit result \<times> st \<Rightarrow> nat \<times> event list" where
  "top_level (Ok u, s) = (0, trace s)"
| "top_level (Exit n, s) = (n, trace s)"
| "top_level (Raised KeyboardInterrupt, s) =
     (1, trace s @ [Print (newline @ newline @ ''Operation cancelled by user.'')])"
| "top_level (Raised e, s) =
     (1, trace (snd (print_error (''Unexpected error: '' @ str_exn e) s)))"

definition run_create :: "response list \<Rightarrow> nat \<times> event list" where
  "run_create responses = top_level (create_main \<lparr>tape = responses, trace = []\<rparr>)"

subsection \<open>\<^verbatim>\<open>delete.py\<close>\<close>

definition delete_stack_exists :: "string \<Rightarrow> bool prog" where
  "delete_stack_exists stack_name =
     try_except
       (pbind (describe_stacks stack_name) (\<lambda>response.
        pbind (first_stack response) (\<lambda>stack0.
          if StackStatus stack0 = ''DELETE_COMPLETE'' then ret False else ret True)))
       (\<lambda>e. case e of
          ClientError m \<Rightarrow> if sublist ''does not exist'' (str_exn e) then ret False else raise e
        | _ \<Rightarrow> raise e)"

definition empty_s3_bucket :: "string \<Rightarrow> bool prog" where
  "empty_s3_bucket bucket_name =
     try_except
       (pthen (print_info (''Emptying S3 bucket: '' @ bucket_name))
       (pthen (objects_all_delete bucket_name)
       (pthen (object_versions_all_delete bucket_name)
       (pthen (print_success (''S3 bucket '' @ bucket_name @ '' emptied successfully!''))
              (ret True)))))
       (\<lambda>e. case e of
          ClientError m \<Rightarrow>
            if sublist ''NoSuchBucket'' (str_exn e) then
              pthen (print_info (''Bucket '' @ bucket_name @
                                 '' does not exist or is already deleted.''))
                    (ret True)
            else pthen (print_error (''Failed to empty S3 bucket: '' @ str_exn e)) (ret False)
        | _ \<Rightarrow> raise e)"

definition delete_stack :: "string \<Rightarrow> bool prog" where
  "delete_stack stack_name =
     try_except
       (pthen (print_info (''Deleting stack: '' @ stack_name))
       (pthen (cf_delete_stack stack_name)
       (pthen (print_success (''Stack deletion initiated: '' @ stack_name))
              (ret True))))
       (\<lambda>e. case e of
          ClientError m \<Rightarrow>
            pthen (print_error (''Failed to delete stack: '' @ str_exn e)) (ret False)
        | _ \<Rightarrow> raise e)"

definition wait_for_stack_deletion :: "string \<Rightarrow> bool prog" where
  "wait_for_stack_deletion stack_name =
     pthen (print_info (''Waiting for stack '' @ stack_name @ '' to be deleted...''))
    (pthen (print_info ''This may take several minutes. Please be patient.'')
    (try_except
       (pthen (waiter_wait ''stack_delete_complete'' stack_name 30 120)
       (pthen (print_success (''Stack '' @ stack_name @ '' deleted successfully!''))
              (ret True)))
       (\<lambda>e. case e of
          WaiterError m \<Rightarrow>
            pthen (print_error (''Stack deletion failed: '' @ str_exn e))
           (pthen (dump_stack_events stack_name)
                  (ret False))
        | _ \<Rightarrow> raise e)))"

definition confirm_prompt :: string where
  "confirm_prompt = newline @ ''Are you sure you want to continue? (yes/no): ''"

definition confirm_deletion :: "bool prog" where
  "confirm_deletion =
     pthen (print_section ''Udagram Infrastructure Deletion'')
    (pthen (print_warning ''This will DELETE all Udagram infrastructure!'')
    (pthen (print_warning ''This action CANNOT be undone!'')
    (pthen (print (newline @ ''The following stacks will be deleted:''))
    (pthen (print (''  1. '' @ APP_STACK_NAME))
    (pthen (print (''  2. '' @ NETWORK_STACK_NAME))
    (pbind (input confirm_prompt) (\<lambda>answer.
       let response = strip (lower answer) in
       ret (response \<in> set [''yes'', ''y'']))))))))"

definition delete_main :: "unit prog" where
  "delete_main = block [
     print_info (''Region: '' @ REGION),
     pbind confirm_deletion (\<lambda>confirmed.
       if_then (\<not> confirmed) (block [
         print_info ''Deletion cancelled by user.'',
         sys_exit 0])),
     pbind (delete_stack_exists APP_STACK_NAME) (\<lambda>app_stack_exists.
     pbind (delete_stack_exists NETWORK_STACK_NAME) (\<lambda>network_stack_exists. block [
       if_then (\<not> app_stack_exists \<and> \<not> network_stack_exists) (block [
         print_info ''No Udagram stacks found. Nothing to delete.'',
         sys_exit 0]),
       if_then app_stack_exists (block [
         print_section ''Step 1: Emptying S3 Bucket'',
         pbind (get_stack_output APP_STACK_NAME ''S3BucketName'') (\<lambda>s3_bucket_name.
           case s3_bucket_name of
             Some bucket \<Rightarrow>
               if bucket \<noteq> [] then
                 pbind (empty_s3_bucket bucket) (\<lambda>ok.
                   if_then (\<not> ok) (block [
                     print_error ''Failed to empty S3 bucket. Cannot proceed with deletion.'',
                     print_info ''Please manually empty the S3 bucket and try again.'',
                     sys_exit 1]))
               else print_warning
                      ''Could not retrieve S3 bucket name. Proceeding with stack deletion.''
           | None \<Rightarrow> print_warning
                      ''Could not retrieve S3 bucket name. Proceeding with stack deletion.'')]),
       if app_stack_exists then block [
         print_section ''Step 2: Deleting Application Infrastructure'',
         pbind (delete_stack APP_STACK_NAME) (\<lambda>ok.
           if_then (\<not> ok) (block [
             print_error ''Failed to initiate application stack deletion. Exiting.'',
             sys_exit 1])),
         pbind (wait_for_stack_deletion APP_STACK_NAME) (\<lambda>ok.
           if_then (\<not> ok) (block [
             print_error ''Application stack deletion failed.'',
             print_info ''Please check the AWS Console for more details.'',
             sys_exit 1]))]
       else print_info (''Stack '' @ APP_STACK_NAME @ '' does not exist or is already deleted.''),
       if network_stack_exists then block [
         print_section ''Step 3: Deleting Network Infrastructure'',
         pbind (delete_stack NETWORK_STACK_NAME) (\<lambda>ok.
           if_then (\<not> ok) (block [
             print_error ''Failed to initiate network stack deletion. Exiting.'',
             sys_exit 1])),
         pbind (wait_for_stack_deletion NETWORK_STACK_NAME) (\<lambda>ok.
           if_then (\<not> ok) (block [
             print_error ''Network stack deletion failed.'',
             print_info ''Please check the AWS Console for more details.'',
             sys_exit 1]))]
       else print_info (''Stack '' @ NETWORK_STACK_NAME @
                        '' does not exist or is already deleted.''),
       print_section ''Infrastructure Deletion Complete!'',
       print_success ''All Udagram resources have been successfully deleted.'',
       print_info ''Your AWS account has been cleaned up.'',
       print (newline @ rule70 @ newline)]))]"

definition run_delete :: "response list \<Rightarrow> nat \<times> event list" where
  "run_delete responses = top_level (delete_main \<lparr>tape = responses, trace = []\<rparr>)"

subsection \<open>Reading a trace\<close>

text \<open>The external calls of a trace, in order, with and without their outcome.\<close>

fun calls :: "event list \<Rightarrow> (call \<times> bool) list" where
  "calls [] = []"
| "calls (Print l # tr) = calls tr"
| "calls (Call c ok # tr) = (c, ok) # calls tr"

definition requests :: "event list \<Rightarrow> call list" where
  "requests tr = map fst (calls tr)"

fun is_CreateStack :: "call \<Rightarrow> bool" where
  "is_CreateStack (CreateStack n b p c t) = True"
| "is_CreateStack _ = False"

fun is_DeleteStack :: "call \<Rightarrow> bool" where
  "is_DeleteStack (DeleteStack n) = True"
| "is_DeleteStack _ = False"

text \<open>The calls that change something at the remote services.\<close>

fun is_mutation :: "call \<Rightarrow> bool" where
  "is_mutation (CreateStack n b p c t) = True"
| "is_mutation (DeleteStack n) = True"
| "is_mutation (UploadFile f b k x) = True"
| "is_mutation (ObjectsDelete b) = True"
| "is_mutation (ObjectVersionsDelete b) = True"
| "is_mutation _ = False"

text \<open>
  A run of whitespace characters, and an affirmative answer: whitespace, then \<^verbatim>\<open>yes\<close> or
  \<^verbatim>\<open>y\<close> in any letter case, then whitespace.
\<close>

inductive spaces :: "string \<Rightarrow> bool" where
  "spaces []"
| "w \<in> set whitespace \<Longrightarrow> spaces s \<Longrightarrow> spaces (w @ s)"

definition affirmative :: "string \<Rightarrow> bool" where
  "affirmative a =
     (\<exists>l u r. a = l @ u @ r \<and> spaces l \<and> spaces r \<and>
        u \<in> set [''yes'', ''yeS'', ''yEs'', ''yES'', ''Yes'', ''YeS'', ''YEs'', ''YES'',
                  ''y'', ''Y''])"

text \<open>
  A response to \<^verbatim>\<open>describe_stacks\<close> that says the stack is not there: the service's
  ``does not exist'' error, or a record in the terminal delete-complete state.
\<close>

fun reports_absent :: "response \<Rightarrow> bool" where
  "reports_absent (Raises (ClientError m)) = sublist ''does not exist'' m"
| "reports_absent (Stacks (x # xs)) = (StackStatus x = ''DELETE_COMPLETE'')"
| "reports_absent _ = False"

text \<open>
  What a waiter adds to the trace when its last poll is the \<open>j\<close>-th after the first:
  \<open>j\<close> polls that found \<open>Retry\<close>, each followed by a sleep, then the last poll.
\<close>

definition waiter_trace :: "string \<Rightarrow> string \<Rightarrow> nat \<Rightarrow> nat \<Rightarrow> bool \<Rightarrow> event list" where
  "waiter_trace w name delay j ok =
     concat (replicate j [Call (WaiterPoll w name) True, Call (Sleep delay) True]) @
     [Call (WaiterPoll w name) ok]"

fun is_WaiterPoll :: "call \<Rightarrow> bool" where
  "is_WaiterPoll (WaiterPoll w n) = True"
| "is_WaiterPoll _ = False"

fun is_Sleep :: "call \<Rightarrow> bool" where
  "is_Sleep (Sleep d) = True"
| "is_Sleep _ = False"

text \<open>The lines of the event dump, and of the output listing.\<close>

fun failed_event_lines :: "stack_event list \<Rightarrow> string list" where
  "failed_event_lines [] = []"
| "failed_event_lines (ev # evs) =
     (if sublist ''FAILED'' (dict_get (ResourceStatus ev) [])
      then [''  - '' @ LogicalResourceId ev @ '': '' @
            dict_get (ResourceStatusReason ev) ''Unknown error'']
      else []) @ failed_event_lines evs"

fun output_lines :: "stack_output list \<Rightarrow> string list" where
  "output_lines [] = []"
| "output_lines (x # xs) =
     (''  '' @ OutputKey x @ '': '' @ OutputValue x) #
     (case Description x of Some d \<Rightarrow> [''    Description: '' @ d] | None \<Rightarrow> []) @
     output_lines xs"

text \<open>The operator's Ctrl-C is the next thing to happen.\<close>

fun interrupts :: "response list \<Rightarrow> bool" where
  "interrupts (Raises KeyboardInterrupt # rest) = True"
| "interrupts _ = False"

text \<open>
  The operations of a trace: describing a stack, reading a template or a parameter file,
  submitting a stack creation, a completed wait (waiter and stack), uploading a file and
  requesting a stack deletion, each with its outcome. The polls, the sleeps and the event
  dump of a wait are part of the wait.
\<close>

datatype op =
    Describe string
  | Load string
  | Submit string
  | Await string string
  | Upload string string
  | Remove string

fun op_of :: "call \<Rightarrow> op option" where
  "op_of (DescribeStacks n) = Some (Describe n)"
| "op_of (OpenRead f) = Some (Load f)"
| "op_of (JsonLoad f) = Some (Load f)"
| "op_of (CreateStack n b p c t) = Some (Submit n)"
| "op_of (WaiterWait w n d m) = Some (Await w n)"
| "op_of (UploadFile f b k x) = Some (Upload f k)"
| "op_of (DeleteStack n) = Some (Remove n)"
| "op_of _ = None"

fun operations :: "event list \<Rightarrow> (op \<times> bool) list" where
  "operations [] = []"
| "operations (Print l # tr) = operations tr"
| "operations (Call c ok # tr) =
     (case op_of c of Some x \<Rightarrow> (x, ok) # operations tr | None \<Rightarrow> operations tr)"

text \<open>The printed lines of a trace, and what running a program adds to the trace.\<close>

fun printed :: "event list \<Rightarrow> string list" where
  "printed [] = []"
| "printed (Print l # tr) = l # printed tr"
| "printed (Call c ok # tr) = printed tr"

definition added :: "'a prog \<Rightarrow> st \<Rightarrow> event list" where
  "added m s = drop (length (trace s)) (trace (snd (m s)))"

text \<open>
  \<^verbatim>\<open>wait_for_stack_creation\<close> and \<^verbatim>\<open>wait_for_stack_deletion\<close> are the same code up
  to the waiter's name and three messages; \<open>wait_with\<close> is that common shape, used to
  reason about both at once.
\<close>

definition wait_with :: "string \<Rightarrow> string \<Rightarrow> string \<Rightarrow> string \<Rightarrow> string \<Rightarrow> bool prog" where
  "wait_with w waiting finished failed stack_name =
     pthen (print_info waiting)
    (pthen (print_info ''This may take several minutes. Please be patient.'')
    (try_except
       (pthen (waiter_wait w stack_name 30 120)
       (pthen (print_success finished)
              (ret True)))
       (\<lambda>e. case e of
          WaiterError m \<Rightarrow>
            pthen (print_error (failed @ str_exn e))
           (pthen (dump_stack_events stack_name)
                  (ret False))
        | _ \<Rightarrow> raise e)))"


subsection \<open>Reading a run\<close>











text \<open>
  A plan is a list of operations, each with the outcome that lets the flow go on to the
  next one (\<open>None\<close> when either outcome does). A list of operations follows a plan under
  gating when its operations are the first ones of the plan, in the plan's order, and
  every one of them but the last had the outcome that lets the flow go on. It completes
  the plan when it has all the operations of the plan.
\<close>

definition gated :: "(op \<times> bool option) list \<Rightarrow> (op \<times> bool) list \<Rightarrow> bool" where
  "gated plan ops =
     (prefix (map fst ops) (map fst plan) \<and>
      list_all (\<lambda>(did, planned). snd planned = None \<or> snd planned = Some (snd did))
        (zip (butlast ops) plan))"

definition complete :: "(op \<times> bool option) list \<Rightarrow> (op \<times> bool) list \<Rightarrow> bool" where
  "complete plan ops = (gated plan ops \<and> length ops = length plan)"

text \<open>
  The plan of the create flow, with and without the upload (there is none when the
  bucket's name cannot be read): the two existence checks, which must find nothing; for
  each stack the two files, the submission and the wait, which must succeed, and the
  display of the outputs; the lookup of the bucket's name, the upload, and the lookup of
  the address.
\<close>

definition create_plan :: "bool \<Rightarrow> (op \<times> bool option) list" where
  "create_plan upload =
     [(Describe NETWORK_STACK_NAME, Some False), (Describe APP_STACK_NAME, Some False),
      (Load NETWORK_TEMPLATE, Some True), (Load NETWORK_PARAMETERS, Some True),
      (Submit NETWORK_STACK_NAME, Some True),
      (Await ''stack_create_complete'' NETWORK_STACK_NAME, Some True),
      (Describe NETWORK_STACK_NAME, None),
      (Load APP_TEMPLATE, Some True), (Load APP_PARAMETERS, Some True),
      (Submit APP_STACK_NAME, Some True),
      (Await ''stack_create_complete'' APP_STACK_NAME, Some True),
      (Describe APP_STACK_NAME, None),
      (Describe APP_STACK_NAME, None)] @
     (if upload then [(Upload STATIC_CONTENT_FILE ''index.html'', None)] else []) @
     [(Describe APP_STACK_NAME, None)]"

definition create_gated :: "(op \<times> bool) list \<Rightarrow> bool" where
  "create_gated ops = (gated (create_plan True) ops \<or> gated (create_plan False) ops)"

definition create_complete :: "(op \<times> bool) list \<Rightarrow> bool" where
  "create_complete ops = (complete (create_plan True) ops \<or> complete (create_plan False) ops)"

text \<open>The operations of the create flow that must succeed for it to go on.\<close>

definition create_stages :: "op list" where
  "create_stages =
     [Load NETWORK_TEMPLATE, Load NETWORK_PARAMETERS, Submit NETWORK_STACK_NAME,
      Await ''stack_create_complete'' NETWORK_STACK_NAME,
      Load APP_TEMPLATE, Load APP_PARAMETERS, Submit APP_STACK_NAME,
      Await ''stack_create_complete'' APP_STACK_NAME]"

text \<open>
  Two devices for reasoning along a sequence of statements. A program is \<open>quiet\<close> when it
  leaves the operations of the trace as they are and exits, if it does, with code 1. A
  program \<open>leads\<close> from the operations \<open>p\<close> to \<open>Q\<close> when, started on a trace with the
  operations \<open>p\<close>, it either returns some \<open>a\<close> on a trace whose operations satisfy \<open>Q a\<close>,
  or raises, or exits with code 1, on a trace whose operations satisfy \<open>G\<close>.
\<close>

definition quiet :: "'a prog \<Rightarrow> bool" where
  "quiet m = (\<forall>s. operations (trace (snd (m s))) = operations (trace s) \<and>
                  (\<forall>n. fst (m s) = Exit n \<longrightarrow> n = 1))"

definition leads ::
  "((op \<times> bool) list \<Rightarrow> bool) \<Rightarrow> (op \<times> bool) list \<Rightarrow> 'a prog \<Rightarrow>
   ('a \<Rightarrow> (op \<times> bool) list \<Rightarrow> bool) \<Rightarrow> bool" where
  "leads G p m Q =
     (\<forall>s. operations (trace s) = p \<longrightarrow>
        (case fst (m s) of
           Ok a \<Rightarrow> Q a (operations (trace (snd (m s))))
         | Raised e \<Rightarrow> G (operations (trace (snd (m s))))
         | Exit n \<Rightarrow> n = 1 \<and> G (operations (trace (snd (m s))))))"
section \<open>Properties\<close>

subsection \<open>Basic facts\<close>

lemma calls_append [simp]: "calls (xs @ ys) = calls xs @ calls ys"
  by (induction xs rule: calls.induct) auto

lemma requests_append [simp]: "requests (xs @ ys) = requests xs @ requests ys"
  by (simp add: requests_def)

lemma requests_simps [simp]:
  "requests [] = []"
  "requests (Print l # tr) = requests tr"
  "requests (Call c ok # tr) = c # requests tr"
  by (simp_all add: requests_def)

lemmas prog_defs = ret_def raise_def sys_exit_def pbind_def pthen_def try_except_def
  if_then_def print_def external_def emit_def sleep_def

lemmas client_defs = open_read_def json_load_def input_def describe_stacks_def
  describe_stack_events_def cf_create_stack_def cf_delete_stack_def upload_file_def
  objects_all_delete_def object_versions_all_delete_def

lemmas report_defs = print_section_def print_success_def print_error_def print_info_def
  print_warning_def

lemma first_stack_case:
  "first_stack ss s =
     (case ss of
        [] \<Rightarrow> (Raised (IndexError ''list index out of range''), s)
      | x # xs \<Rightarrow> (Ok x, s))"
  by (cases ss) (simp_all add: prog_defs)

subsection \<open>The pre-flight check of the create flow\<close>

text \<open>
  C1. In the create flow, when the network stack or the application stack already exists,
  the run refuses: it exits with code 1 and never calls the provisioning service's create
  operation. A stack exists when \<^verbatim>\<open>describe_stacks\<close> returns a description of it,
  whatever its status: the first response of the tape describes the network stack; the
  second, when the run gets that far, the application stack. Whatever the first response
  \<open>r\<close> is, a describable application stack ends the run in the same way. No call of
  the run mutates anything.
\<close>

theorem create_refuses_existing_stack:
  assumes "responses = Stacks ss # rest \<or> responses = r # Stacks ss # rest"
  shows "fst (run_create responses) = 1 \<and>
         filter is_CreateStack (requests (snd (run_create responses))) = [] \<and>
         filter is_mutation (requests (snd (run_create responses))) = []"
proof -
  have net: "fst (run_create (Stacks ss # rest)) = 1 \<and>
         filter is_CreateStack (requests (snd (run_create (Stacks ss # rest)))) = [] \<and>
         filter is_mutation (requests (snd (run_create (Stacks ss # rest)))) = []"
    by (simp add: run_create_def create_main_def create_stack_exists_def
        prog_defs client_defs report_defs)
  have app: "fst (run_create (r # Stacks ss # rest)) = 1 \<and>
         filter is_CreateStack (requests (snd (run_create (r # Stacks ss # rest)))) = [] \<and>
         filter is_mutation (requests (snd (run_create (r # Stacks ss # rest)))) = []"
    by (cases r)
      (simp_all add: run_create_def create_main_def create_stack_exists_def
        prog_defs client_defs report_defs split: exn.splits)
  from assms net app show ?thesis by blast
qed

theorem create_refuses_existing_stack_witness:
  "fst (run_create [Stacks [\<lparr>StackStatus = ''ROLLBACK_COMPLETE'', Outputs = None\<rparr>]]) = 1 \<and>
   filter is_CreateStack (requests (snd (run_create
     [Stacks [\<lparr>StackStatus = ''ROLLBACK_COMPLETE'', Outputs = None\<rparr>]]))) = [] \<and>
   fst (run_create [Raises (ClientError ''Stack with id udagram-network does not exist''),
     Stacks [\<lparr>StackStatus = ''CREATE_COMPLETE'', Outputs = None\<rparr>]]) = 1 \<and>
   filter is_CreateStack (requests (snd (run_create
     [Raises (ClientError ''Stack with id udagram-network does not exist''),
      Stacks [\<lparr>StackStatus = ''CREATE_COMPLETE'', Outputs = None\<rparr>]]))) = []"
  using create_refuses_existing_stack
      [of "[Stacks [\<lparr>StackStatus = ''ROLLBACK_COMPLETE'', Outputs = None\<rparr>]]"
          "[\<lparr>StackStatus = ''ROLLBACK_COMPLETE'', Outputs = None\<rparr>]" "[]"]
    create_refuses_existing_stack
      [of "[Raises (ClientError ''Stack with id udagram-network does not exist''),
            Stacks [\<lparr>StackStatus = ''CREATE_COMPLETE'', Outputs = None\<rparr>]]"
          "[\<lparr>StackStatus = ''CREATE_COMPLETE'', Outputs = None\<rparr>]" "[]"
          "Raises (ClientError ''Stack with id udagram-network does not exist'')"]
  by simp

subsection \<open>The two existence checks\<close>

text \<open>
  C2. The existence check differs by direction. In the delete flow \<^verbatim>\<open>stack_exists\<close>
  returns \<open>False\<close> exactly when the service reports that the stack does not exist or the
  described stack is in the state \<^verbatim>\<open>DELETE_COMPLETE\<close>, and \<open>True\<close> exactly for a
  described stack in any other state. In the create flow it returns \<open>True\<close> exactly when
  the service describes the stack, whatever its state (failed and delete-complete ones
  included), and \<open>False\<close> exactly on the ``does not exist'' error.
\<close>

theorem stack_exists_differs_by_direction:
  "(fst (delete_stack_exists name s) = Ok False) =
     ((\<exists>m rest. tape s = Raises (ClientError m) # rest \<and> sublist ''does not exist'' m) \<or>
      (\<exists>x xs rest. tape s = Stacks (x # xs) # rest \<and> StackStatus x = ''DELETE_COMPLETE'')) \<and>
   (fst (delete_stack_exists name s) = Ok True) =
     (\<exists>x xs rest. tape s = Stacks (x # xs) # rest \<and> StackStatus x \<noteq> ''DELETE_COMPLETE'') \<and>
   (fst (create_stack_exists name s) = Ok True) = (\<exists>ss rest. tape s = Stacks ss # rest) \<and>
   (fst (create_stack_exists name s) = Ok False) =
     (\<exists>m rest. tape s = Raises (ClientError m) # rest \<and> sublist ''does not exist'' m)"
  by (auto simp: delete_stack_exists_def create_stack_exists_def prog_defs client_defs
      first_stack_case split: list.splits response.splits exn.splits)

subsection \<open>Nothing to delete\<close>

lemma reports_absent_cases:
  "reports_absent r =
     ((\<exists>m. r = Raises (ClientError m) \<and> sublist ''does not exist'' m) \<or>
      (\<exists>x xs. r = Stacks (x # xs) \<and> StackStatus x = ''DELETE_COMPLETE''))"
  by (cases r rule: reports_absent.cases) simp_all

text \<open>
  C3. In the delete flow, when the operator confirms and neither the application stack
  nor the network stack exists (each \<^verbatim>\<open>describe_stacks\<close> answers ``does not exist'' or
  describes a delete-complete record), the run exits with code 0. Its only external calls
  are the prompt and the two status queries: no bucket is emptied, no deletion requested.
\<close>

theorem delete_nothing_to_do:
  assumes "responses = Answer a # r1 # r2 # rest"
    and "strip (lower a) = ''yes'' \<or> strip (lower a) = ''y''"
    and "reports_absent r1" and "reports_absent r2"
  shows "fst (run_delete responses) = 0 \<and>
         requests (snd (run_delete responses)) =
           [Input confirm_prompt, DescribeStacks APP_STACK_NAME,
            DescribeStacks NETWORK_STACK_NAME] \<and>
         filter is_mutation (requests (snd (run_delete responses))) = []"
  using assms(2,3,4) unfolding assms(1) reports_absent_cases
  by (elim disjE exE conjE)
    (simp_all add: run_delete_def delete_main_def confirm_deletion_def
      delete_stack_exists_def prog_defs client_defs report_defs)

theorem delete_nothing_to_do_witness:
  "fst (run_delete [Answer '' Yes '',
      Raises (ClientError ''Stack with id udagram-app does not exist''),
      Stacks [\<lparr>StackStatus = ''DELETE_COMPLETE'', Outputs = None\<rparr>]]) = 0 \<and>
   filter is_mutation (requests (snd (run_delete [Answer '' Yes '',
      Raises (ClientError ''Stack with id udagram-app does not exist''),
      Stacks [\<lparr>StackStatus = ''DELETE_COMPLETE'', Outputs = None\<rparr>]]))) = []"
proof -
  have answer: "strip (lower '' Yes '') = ''yes'' \<or> strip (lower '' Yes '') = ''y''"
    by code_simp
  have app: "reports_absent (Raises (ClientError ''Stack with id udagram-app does not exist''))"
    by code_simp
  have net: "reports_absent (Stacks [\<lparr>StackStatus = ''DELETE_COMPLETE'', Outputs = None\<rparr>])"
    by simp
  show ?thesis
    using delete_nothing_to_do [OF refl answer app net, of "[]"] by simp
qed

subsection \<open>The confirmation prompt\<close>

text \<open>
  What \<^verbatim>\<open>strip\<close> takes off is whitespace, and it leaves none at either end; \<^verbatim>\<open>lower\<close>
  changes no whitespace. So the test of the confirmation, \<^verbatim>\<open>yes\<close> or \<^verbatim>\<open>y\<close> once
  lowercased and stripped, accepts the affirmative answers and no other.
\<close>

lemma strip_left_stop: "\<forall>w\<in>set W. \<not> prefix w x \<Longrightarrow> strip_left W x = x"
proof -
  assume "\<forall>w\<in>set W. \<not> prefix w x"
  then have "find (\<lambda>w. w \<noteq> [] \<and> prefix w x) W = None"
    by (simp add: find_None_iff)
  then show ?thesis
    by (simp add: strip_left.simps)
qed

lemma strip_left_step:
  assumes pf: "\<forall>w\<in>set W. \<forall>w'\<in>set W. prefix w w' \<longrightarrow> w = w'"
    and ne: "[] \<notin> set W" and k: "k \<in> set W"
  shows "strip_left W (k @ t) = strip_left W t"
proof -
  from k ne have "\<exists>w\<in>set W. w \<noteq> [] \<and> prefix w (k @ t)"
    by (intro bexI [of _ k]) auto
  then obtain w where f: "find (\<lambda>w. w \<noteq> [] \<and> prefix w (k @ t)) W = Some w"
    by (cases "find (\<lambda>w. w \<noteq> [] \<and> prefix w (k @ t)) W") (auto simp: find_None_iff)
  then have w: "w \<in> set W" "prefix w (k @ t)"
    by (auto simp: find_Some_iff)
  then have "prefix w k \<or> prefix k w"
    by (meson prefix_same_cases prefixI)
  with pf w(1) k have "w = k"
    by blast
  with f show ?thesis
    by (subst strip_left.simps) simp
qed

lemma strip_left_concat:
  assumes pf: "\<forall>w\<in>set W. \<forall>w'\<in>set W. prefix w w' \<longrightarrow> w = w'"
    and ne: "[] \<notin> set W" and ks: "set ks \<subseteq> set W" and np: "\<forall>w\<in>set W. \<not> prefix w x"
  shows "strip_left W (concat ks @ x) = x"
  using ks
proof (induction ks)
  case Nil
  from np show ?case
    by (simp add: strip_left_stop)
next
  case (Cons k ks)
  then show ?case
    using strip_left_step [OF pf ne, of k "concat ks @ x"] by simp
qed

lemma strip_left_decompose: "\<exists>ks. set ks \<subseteq> set W \<and> s = concat ks @ strip_left W s"
proof (induction W s rule: strip_left.induct)
  case (1 W s)
  show ?case
  proof (cases "find (\<lambda>w. w \<noteq> [] \<and> prefix w s) W")
    case None
    then have "strip_left W s = s"
      by (subst strip_left.simps) simp
    then show ?thesis
      by (intro exI [of _ "[]"]) simp
  next
    case (Some w)
    then have w: "w \<in> set W" "prefix w s"
      by (auto simp: find_Some_iff)
    from 1 [OF Some] obtain ks where ks: "set ks \<subseteq> set W"
      "drop (length w) s = concat ks @ strip_left W (drop (length w) s)"
      by blast
    from Some have "strip_left W s = strip_left W (drop (length w) s)"
      by (subst strip_left.simps) simp
    moreover from w(2) have "s = w @ drop (length w) s"
      by (auto simp: prefix_def)
    ultimately have "s = concat (w # ks) @ strip_left W s"
      using ks(2) by simp
    with w(1) ks(1) show ?thesis
      by (intro exI [of _ "w # ks"]) simp
  qed
qed

lemma spaces_concat: "spaces s = (\<exists>ks. set ks \<subseteq> set whitespace \<and> s = concat ks)"
proof
  assume "spaces s"
  then show "\<exists>ks. set ks \<subseteq> set whitespace \<and> s = concat ks"
  proof induction
    case 1
    show ?case
      by (intro exI [of _ "[]"]) simp
  next
    case (2 w s)
    then obtain ks where "set ks \<subseteq> set whitespace" "s = concat ks"
      by blast
    with 2(1) show ?case
      by (intro exI [of _ "w # ks"]) simp
  qed
next
  assume "\<exists>ks. set ks \<subseteq> set whitespace \<and> s = concat ks"
  then obtain ks where "set ks \<subseteq> set whitespace" "s = concat ks"
    by blast
  then show "spaces s"
    by (induction ks arbitrary: s) (auto intro: spaces.intros)
qed

lemma spaces_rev:
  "spaces s = (\<exists>ks. set ks \<subseteq> set (map rev whitespace) \<and> rev s = concat ks)"
proof
  assume "spaces s"
  then obtain ks where ks: "set ks \<subseteq> set whitespace" "s = concat ks"
    by (auto simp: spaces_concat)
  then show "\<exists>ks. set ks \<subseteq> set (map rev whitespace) \<and> rev s = concat ks"
    by (intro exI [of _ "map rev (rev ks)"]) (auto simp: rev_concat)
next
  assume "\<exists>ks. set ks \<subseteq> set (map rev whitespace) \<and> rev s = concat ks"
  then obtain ks where ks: "set ks \<subseteq> set (map rev whitespace)" "rev s = concat ks"
    by blast
  then have "s = concat (map rev (rev ks))"
    by (metis rev_concat rev_rev_ident)
  moreover from ks(1) have "set (map rev (rev ks)) \<subseteq> set whitespace"
    by auto
  ultimately show "spaces s"
    unfolding spaces_concat by blast
qed

lemma whitespace_prefix_free:
  "\<forall>w\<in>set whitespace. \<forall>w'\<in>set whitespace. prefix w w' \<longrightarrow> w = w'"
  by code_simp

lemma whitespace_suffix_free:
  "\<forall>w\<in>set (map rev whitespace). \<forall>w'\<in>set (map rev whitespace). prefix w w' \<longrightarrow> w = w'"
  by code_simp

lemma whitespace_nonempty: "[] \<notin> set whitespace" "[] \<notin> set (map rev whitespace)"
  by code_simp+

lemma strip_decompose: "\<exists>l r. s = l @ strip s @ r \<and> spaces l \<and> spaces r"
proof -
  from strip_left_decompose [of whitespace s] obtain l where
    l: "spaces l" "s = l @ lstrip s"
    unfolding spaces_concat lstrip_def by blast
  from strip_left_decompose [of "map rev whitespace" "rev (lstrip s)"] obtain ks where
    ks: "set ks \<subseteq> set (map rev whitespace)"
      "rev (lstrip s) = concat ks @ rev (strip s)"
    unfolding strip_def rstrip_def by auto
  define r where "r = rev (concat ks)"
  from ks(1) have "spaces r"
    unfolding spaces_rev r_def by auto
  moreover from ks(2) have "lstrip s = strip s @ r"
    unfolding r_def by (metis rev_append rev_rev_ident)
  ultimately show ?thesis
    using l by metis
qed

lemma strip_sandwich:
  assumes "spaces l" and "spaces r"
    and "\<forall>w\<in>set whitespace. \<not> prefix w (u @ r)"
    and "\<forall>w\<in>set (map rev whitespace). \<not> prefix w (rev u)"
  shows "strip (l @ u @ r) = u"
proof -
  from assms(1) obtain ks where "set ks \<subseteq> set whitespace" "l = concat ks"
    unfolding spaces_concat by blast
  with assms(3) have "lstrip (l @ u @ r) = u @ r"
    unfolding lstrip_def
    using strip_left_concat [OF whitespace_prefix_free whitespace_nonempty(1)] by blast
  moreover from assms(2) obtain ks' where
    "set ks' \<subseteq> set (map rev whitespace)" "rev r = concat ks'"
    unfolding spaces_rev by blast
  with assms(4) have "rstrip (u @ r) = u"
    unfolding rstrip_def
    using strip_left_concat [OF whitespace_suffix_free whitespace_nonempty(2), of ks' "rev u"]
    by simp
  ultimately show ?thesis
    by (simp add: strip_def)
qed

lemma of_char_lower_char:
  "(of_char (lower_char c) :: nat) =
     (if 65 \<le> (of_char c :: nat) \<and> (of_char c :: nat) \<le> 90 then of_char c + 32 else of_char c)"
proof -
  have "of_char (char_of (of_char c + 32 :: nat)) = (of_char c + 32 :: nat)"
    if "(of_char c :: nat) \<le> 90"
    using that by simp
  then show ?thesis
    by (auto simp: lower_char_def Let_def)
qed

lemma lower_char_eq:
  assumes "(of_char d :: nat) \<notin> {65..90}"
  shows "(lower_char c = d) =
     (c = d \<or> (of_char d :: nat) \<in> {97..122} \<and> (of_char c :: nat) + 32 = of_char d)"
proof -
  have "(lower_char c = d) = ((of_char (lower_char c) :: nat) = of_char d)"
    by simp
  also have "\<dots> = (c = d \<or>
      (of_char d :: nat) \<in> {97..122} \<and> (of_char c :: nat) + 32 = of_char d)"
    unfolding of_char_lower_char using assms
    by auto
  finally show ?thesis .
qed

lemma lower_char_letter:
  "(lower_char c = CHR ''y'') = (c = CHR ''y'' \<or> c = CHR ''Y'')"
  "(lower_char c = CHR ''e'') = (c = CHR ''e'' \<or> c = CHR ''E'')"
  "(lower_char c = CHR ''s'') = (c = CHR ''s'' \<or> c = CHR ''S'')"
proof -
  have upper: "(c = CHR ''Y'') = ((of_char c :: nat) = 89)"
    "(c = CHR ''E'') = ((of_char c :: nat) = 69)"
    "(c = CHR ''S'') = ((of_char c :: nat) = 83)"
    using of_char_eq_iff [of c "CHR ''Y''", where ?'a = nat]
      of_char_eq_iff [of c "CHR ''E''", where ?'a = nat]
      of_char_eq_iff [of c "CHR ''S''", where ?'a = nat]
    by simp_all
  show "(lower_char c = CHR ''y'') = (c = CHR ''y'' \<or> c = CHR ''Y'')"
    by (subst lower_char_eq) (auto simp: upper)
  show "(lower_char c = CHR ''e'') = (c = CHR ''e'' \<or> c = CHR ''E'')"
    by (subst lower_char_eq) (auto simp: upper)
  show "(lower_char c = CHR ''s'') = (c = CHR ''s'' \<or> c = CHR ''S'')"
    by (subst lower_char_eq) (auto simp: upper)
qed

lemma lower_affirmative:
  "(lower u = ''yes'' \<or> lower u = ''y'') =
     (u \<in> set [''yes'', ''yeS'', ''yEs'', ''yES'', ''Yes'', ''YeS'', ''YEs'', ''YES'',
               ''y'', ''Y''])"
proof -
  have one: "(lower u = [x]) = (\<exists>a. u = [a] \<and> lower_char a = x)" for u x
    by (cases u) (auto simp: lower_def)
  have three: "(lower u = [x, y, z]) =
      (\<exists>a b c. u = [a, b, c] \<and> lower_char a = x \<and> lower_char b = y \<and> lower_char c = z)"
    for u x y z
    by (auto simp: lower_def map_eq_Cons_conv)
  have spelled: "\<forall>u\<in>set [''yes'', ''yeS'', ''yEs'', ''yES'', ''Yes'', ''YeS'', ''YEs'', ''YES'',
      ''y'', ''Y'']. lower u = ''yes'' \<or> lower u = ''y''"
    by code_simp
  show ?thesis
  proof
    assume "lower u = ''yes'' \<or> lower u = ''y''"
    then show "u \<in> set [''yes'', ''yeS'', ''yEs'', ''yES'', ''Yes'', ''YeS'', ''YEs'', ''YES'',
        ''y'', ''Y'']"
      unfolding one three lower_char_letter by (elim disjE exE conjE) simp_all
  next
    assume "u \<in> set [''yes'', ''yeS'', ''yEs'', ''yES'', ''Yes'', ''YeS'', ''YEs'', ''YES'',
        ''y'', ''Y'']"
    with spelled show "lower u = ''yes'' \<or> lower u = ''y''"
      by blast
  qed
qed

lemma lower_fixed:
  "list_all (\<lambda>c. (of_char c :: nat) \<notin> {65..90} \<union> {97..122}) l \<Longrightarrow> (lower x = l) = (x = l)"
proof (induction l arbitrary: x)
  case Nil
  then show ?case
    by (simp add: lower_def)
next
  case (Cons d l)
  then show ?case
    by (cases x) (auto simp: lower_def lower_char_eq)
qed

lemma whitespace_caseless:
  "\<forall>w\<in>set whitespace. list_all (\<lambda>c. (of_char c :: nat) \<notin> {65..90} \<union> {97..122}) w"
  by code_simp

lemma spaces_caseless:
  "spaces l \<Longrightarrow> list_all (\<lambda>c. (of_char c :: nat) \<notin> {65..90} \<union> {97..122}) l"
  by (induction rule: spaces.induct) (use whitespace_caseless in auto)

lemma lower_spaces: "spaces l \<Longrightarrow> (lower x = l) = (x = l)"
  by (rule lower_fixed) (rule spaces_caseless)

lemma lower_append: "lower (x @ y) = lower x @ lower y"
  by (simp add: lower_def)

lemma whitespace_not_affirmative:
  "\<forall>w\<in>set whitespace. \<not> prefix w (''yes'' @ r) \<and> \<not> prefix w (''y'' @ r)"
  "\<forall>w\<in>set (map rev whitespace). \<not> prefix w (rev ''yes'') \<and> \<not> prefix w (rev ''y'')"
  by (simp_all add: whitespace_def)

lemma accepted_answers:
  "(strip (lower a) = ''yes'' \<or> strip (lower a) = ''y'') = affirmative a"
proof
  assume acc: "strip (lower a) = ''yes'' \<or> strip (lower a) = ''y''"
  obtain l r where d: "lower a = l @ strip (lower a) @ r" "spaces l" "spaces r"
    using strip_decompose by blast
  from d(1) obtain l' u' r' where a: "a = l' @ u' @ r'" "lower l' = l"
      "lower u' = strip (lower a)" "lower r' = r"
    unfolding lower_def by (metis map_eq_append_conv)
  from a(2,4) d(2,3) have "l' = l" "r' = r"
    by (simp_all add: lower_spaces)
  moreover from acc a(3) have "lower u' = ''yes'' \<or> lower u' = ''y''"
    by simp
  ultimately show "affirmative a"
    unfolding affirmative_def lower_affirmative [symmetric] using a(1) d(2,3) by blast
next
  assume "affirmative a"
  then obtain l u r where a: "a = l @ u @ r" "spaces l" "spaces r"
    "lower u = ''yes'' \<or> lower u = ''y''"
    unfolding affirmative_def lower_affirmative [symmetric] by blast
  from a(2,3) have "lower l = l" "lower r = r"
    by (simp_all add: lower_spaces)
  then have la: "lower a = l @ lower u @ r"
    by (simp add: a(1) lower_append)
  from a(4) have "strip (lower a) = lower u"
    unfolding la
    by (intro strip_sandwich a(2,3)) (use whitespace_not_affirmative(1) [of r] whitespace_not_affirmative(2) in auto)
  with a(4) show "strip (lower a) = ''yes'' \<or> strip (lower a) = ''y''"
    by simp
qed

text \<open>
  C10. The confirmation accepts exactly the answers that are \<^verbatim>\<open>yes\<close> or \<^verbatim>\<open>y\<close> once
  lowercased and stripped of surrounding whitespace: whitespace of Unicode, then \<^verbatim>\<open>yes\<close>
  or \<^verbatim>\<open>y\<close> in any letter case, then whitespace. For every other answer the run exits
  with code 0 and the prompt is its only external call: nothing is described, emptied or
  deleted.
\<close>

theorem confirmation_gate:
  "(tape s = Answer a # rest \<longrightarrow> fst (confirm_deletion s) = Ok (affirmative a)) \<and>
   (\<not> affirmative a \<longrightarrow>
      fst (run_delete (Answer a # rest)) = 0 \<and>
      requests (snd (run_delete (Answer a # rest))) = [Input confirm_prompt])"
  unfolding accepted_answers [symmetric]
  by (simp add: run_delete_def delete_main_def confirm_deletion_def
      prog_defs client_defs report_defs Let_def)

theorem confirmation_gate_witness:
  "fst (confirm_deletion
     \<lparr>tape = [Answer [CHR 0x20, CHR ''Y'', CHR ''e'', CHR ''S'', CHR 0xC2, CHR 0xA0, CHR 0x0A]], trace = []\<rparr>) = Ok True \<and>
   fst (confirm_deletion \<lparr>tape = [Answer ''yes please''], trace = []\<rparr>) = Ok False \<and>
   fst (run_delete [Answer ''no'', Stacks []]) = 0 \<and>
   requests (snd (run_delete [Answer ''no'', Stacks []])) = [Input confirm_prompt]"
proof -
  have "strip (lower [CHR 0x20, CHR ''Y'', CHR ''e'', CHR ''S'', CHR 0xC2, CHR 0xA0, CHR 0x0A]) = ''yes''"
    by code_simp
  then have padded: "affirmative [CHR 0x20, CHR ''Y'', CHR ''e'', CHR ''S'', CHR 0xC2, CHR 0xA0, CHR 0x0A]"
    unfolding accepted_answers [symmetric] by simp
  have "strip (lower ''yes please'') = ''yes please''"
    by code_simp
  then have more: "\<not> affirmative ''yes please''"
    unfolding accepted_answers [symmetric] by simp
  have "strip (lower ''no'') = ''no''"
    by code_simp
  then have no: "\<not> affirmative ''no''"
    unfolding accepted_answers [symmetric] by simp
  show ?thesis
    using confirmation_gate [of "\<lparr>tape = [Answer [CHR 0x20, CHR ''Y'', CHR ''e'', CHR ''S'', CHR 0xC2, CHR 0xA0, CHR 0x0A]], trace = []\<rparr>" "[CHR 0x20, CHR ''Y'', CHR ''e'', CHR ''S'', CHR 0xC2, CHR 0xA0, CHR 0x0A]" "[]"]
      confirmation_gate [of "\<lparr>tape = [Answer ''yes please''], trace = []\<rparr>"
        "''yes please''" "[]"]
      confirmation_gate [of "\<lparr>tape = [Answer ''no'', Stacks []], trace = []\<rparr>"
        "''no''" "[Stacks []]"]
    by (simp add: padded more no)
qed

subsection \<open>Looking up a stack output\<close>

lemma find_output_map_of:
  "find_output k os = map_of (map (\<lambda>x. (OutputKey x, OutputValue x)) os) k"
  by (induction os) simp_all

lemma find_output_None: "(find_output k os = None) = (k \<notin> OutputKey ` set os)"
  by (induction os) auto

text \<open>
  Not every failure of \<^verbatim>\<open>describe_stacks\<close> gives \<open>None\<close>: the function catches
  \<^verbatim>\<open>ClientError\<close>, the error response of the service, and nothing else. When the service
  cannot be reached the client library raises another exception, which
  \<^verbatim>\<open>get_stack_output\<close> raises to its caller, reporting nothing.
\<close>

theorem get_stack_output_unreachable:
  "fst (get_stack_output ''udagram-app'' ''S3BucketName''
     \<lparr>tape = [Raises (OtherException ''Could not connect to the endpoint URL'')],
      trace = []\<rparr>) =
     Raised (OtherException ''Could not connect to the endpoint URL'') \<and>
   fst (get_stack_output ''udagram-app'' ''S3BucketName''
     \<lparr>tape = [Raises (OtherException ''Could not connect to the endpoint URL'')],
      trace = []\<rparr>) \<noteq> Ok None \<and>
   printed (trace (snd (get_stack_output ''udagram-app'' ''S3BucketName''
     \<lparr>tape = [Raises (OtherException ''Could not connect to the endpoint URL'')],
      trace = []\<rparr>))) = []"
  by (simp add: get_stack_output_def prog_defs client_defs)

text \<open>
  C4, amended. \<^verbatim>\<open>get_stack_output\<close> scans the described stack's output list from the
  front and returns the value of the first output with the key. It returns \<open>None\<close>, and
  does not raise, when no output has the key and when the stack has no outputs (the field
  absent or the list empty). When \<^verbatim>\<open>describe_stacks\<close> fails with a \<^verbatim>\<open>ClientError\<close> it
  prints the error and returns \<open>None\<close>; any other failure of the call is raised to the
  caller.
\<close>

theorem get_stack_output_absent:
  "(tape s = Stacks (x # xs) # rest \<longrightarrow>
      fst (get_stack_output name k s) =
        Ok (map_of (map (\<lambda>x. (OutputKey x, OutputValue x)) (dict_get (Outputs x) [])) k)) \<and>
   (tape s = Stacks (x # xs) # rest \<and> k \<notin> OutputKey ` set (dict_get (Outputs x) []) \<longrightarrow>
      fst (get_stack_output name k s) = Ok None) \<and>
   (tape s = Stacks (x # xs) # rest \<and> (Outputs x = None \<or> Outputs x = Some []) \<longrightarrow>
      fst (get_stack_output name k s) = Ok None) \<and>
   (tape s = Raises (ClientError m) # rest \<longrightarrow>
      get_stack_output name k s =
        (Ok None, s\<lparr>tape := rest, trace := trace s @
           [Call (DescribeStacks name) False,
            Print (ballot_x @ '' ERROR: Failed to get stack output: '' @ m)]\<rparr>)) \<and>
   (tape s = Raises e # rest \<and> (\<forall>m. e \<noteq> ClientError m) \<longrightarrow>
      get_stack_output name k s =
        (Raised e, s\<lparr>tape := rest, trace := trace s @ [Call (DescribeStacks name) False]\<rparr>))"
  by (auto simp: get_stack_output_def prog_defs client_defs report_defs
      find_output_map_of [symmetric] find_output_None split: exn.splits)

theorem get_stack_output_absent_witness:
  "fst (get_stack_output ''udagram-app'' ''LoadBalancerURL''
     \<lparr>tape = [Stacks [\<lparr>StackStatus = ''CREATE_COMPLETE'', Outputs = Some
        [\<lparr>OutputKey = ''S3BucketName'', OutputValue = ''bkt'', Description = None\<rparr>]\<rparr>]],
      trace = []\<rparr>) = Ok None \<and>
   fst (get_stack_output ''udagram-app'' ''S3BucketName''
     \<lparr>tape = [Stacks [\<lparr>StackStatus = ''CREATE_COMPLETE'', Outputs = None\<rparr>]],
      trace = []\<rparr>) = Ok None \<and>
   fst (get_stack_output ''udagram-app'' ''S3BucketName''
     \<lparr>tape = [Raises (ClientError ''AccessDenied'')], trace = []\<rparr>) = Ok None \<and>
   fst (get_stack_output ''udagram-app'' ''S3BucketName''
     \<lparr>tape = [Raises KeyboardInterrupt], trace = []\<rparr>) = Raised KeyboardInterrupt"
  using get_stack_output_absent
      [of "\<lparr>tape = [Stacks [\<lparr>StackStatus = ''CREATE_COMPLETE'', Outputs = Some
             [\<lparr>OutputKey = ''S3BucketName'', OutputValue = ''bkt'', Description = None\<rparr>]\<rparr>]],
            trace = []\<rparr>"
          "\<lparr>StackStatus = ''CREATE_COMPLETE'', Outputs = Some
             [\<lparr>OutputKey = ''S3BucketName'', OutputValue = ''bkt'', Description = None\<rparr>]\<rparr>"
          "[]" "[]" "''udagram-app''" "''LoadBalancerURL''"]
    get_stack_output_absent
      [of "\<lparr>tape = [Stacks [\<lparr>StackStatus = ''CREATE_COMPLETE'', Outputs = None\<rparr>]],
            trace = []\<rparr>"
          "\<lparr>StackStatus = ''CREATE_COMPLETE'', Outputs = None\<rparr>"
          "[]" "[]" "''udagram-app''" "''S3BucketName''"]
    get_stack_output_absent
      [of "\<lparr>tape = [Raises (ClientError ''AccessDenied'')], trace = []\<rparr>"
          "\<lparr>StackStatus = [], Outputs = None\<rparr>" "[]" "[]"
          "''udagram-app''" "''S3BucketName''" "''AccessDenied''" KeyboardInterrupt]
    get_stack_output_absent
      [of "\<lparr>tape = [Raises KeyboardInterrupt], trace = []\<rparr>"
          "\<lparr>StackStatus = [], Outputs = None\<rparr>" "[]" "[]"
          "''udagram-app''" "''S3BucketName''" "''AccessDenied''" KeyboardInterrupt]
  by simp

subsection \<open>Emptying the bucket\<close>

text \<open>
  C5. \<^verbatim>\<open>empty_s3_bucket\<close> first deletes all objects of the bucket and then all object
  versions; when both batch deletions return (as they do on a bucket that holds nothing)
  it reports success. A \<^verbatim>\<open>ClientError\<close> naming \<^verbatim>\<open>NoSuchBucket\<close>, from either
  deletion, is success too. Emptying twice in a row succeeds both times.
\<close>

theorem empty_s3_bucket_success:
  "(tape s = Done # Done # rest \<longrightarrow>
      fst (empty_s3_bucket b s) = Ok True \<and>
      calls (trace (snd (empty_s3_bucket b s))) =
        calls (trace s) @ [(ObjectsDelete b, True), (ObjectVersionsDelete b, True)] \<and>
      tape (snd (empty_s3_bucket b s)) = rest) \<and>
   (tape s = Raises (ClientError m) # rest \<and> sublist ''NoSuchBucket'' m \<longrightarrow>
      fst (empty_s3_bucket b s) = Ok True \<and>
      calls (trace (snd (empty_s3_bucket b s))) = calls (trace s) @ [(ObjectsDelete b, False)]) \<and>
   (tape s = Done # Raises (ClientError m) # rest \<and> sublist ''NoSuchBucket'' m \<longrightarrow>
      fst (empty_s3_bucket b s) = Ok True) \<and>
   (tape s = Done # Done # Done # Done # rest \<longrightarrow>
      fst (pthen (empty_s3_bucket b) (empty_s3_bucket b) s) = Ok True)"
  by (simp add: empty_s3_bucket_def prog_defs client_defs report_defs)

theorem empty_s3_bucket_success_witness:
  "fst (empty_s3_bucket ''bkt'' \<lparr>tape = [Done, Done], trace = []\<rparr>) = Ok True \<and>
   calls (trace (snd (empty_s3_bucket ''bkt'' \<lparr>tape = [Done, Done], trace = []\<rparr>))) =
     [(ObjectsDelete ''bkt'', True), (ObjectVersionsDelete ''bkt'', True)] \<and>
   fst (empty_s3_bucket ''bkt''
     \<lparr>tape = [Raises (ClientError ''An error occurred (NoSuchBucket)'')], trace = []\<rparr>) =
     Ok True \<and>
   fst (pthen (empty_s3_bucket ''bkt'') (empty_s3_bucket ''bkt'')
     \<lparr>tape = [Done, Done, Done, Done], trace = []\<rparr>) = Ok True"
proof -
  have gone: "sublist ''NoSuchBucket'' ''An error occurred (NoSuchBucket)''"
    by code_simp
  show ?thesis
    using empty_s3_bucket_success
        [of "\<lparr>tape = [Done, Done], trace = []\<rparr>" "[]" "''bkt''"]
      empty_s3_bucket_success
        [of "\<lparr>tape = [Raises (ClientError ''An error occurred (NoSuchBucket)'')],
              trace = []\<rparr>" "[]" "''bkt''" "''An error occurred (NoSuchBucket)''"]
      empty_s3_bucket_success
        [of "\<lparr>tape = [Done, Done, Done, Done], trace = []\<rparr>" "[]" "''bkt''"]
      gone
    by simp
qed

subsection \<open>The poll loop\<close>

text \<open>
  The trace of a wait is that of its polls: \<open>j\<close> polls that answer ``retry'', each followed
  by a sleep of the delay, and one last poll.
\<close>

lemma waiter_trace_Suc:
  "Call (WaiterPoll w n) True # Call (Sleep d) True # waiter_trace w n d j ok =
   waiter_trace w n d (Suc j) ok"
  by (simp add: waiter_trace_def)

lemma waiter_trace_0: "[Call (WaiterPoll w n) ok] = waiter_trace w n d 0 ok"
  by (simp add: waiter_trace_def)

lemma waiter_poll_cases:
  "waiter_poll w n s =
     (case tape s of
        [] \<Rightarrow> (Raised (OtherException ''no response''), emit (Call (WaiterPoll w n) False) s)
      | r # rs \<Rightarrow>
          (case r of
             Status v \<Rightarrow> (Ok v, emit (Call (WaiterPoll w n) True) (s\<lparr>tape := rs\<rparr>))
           | Raises (ClientError m) \<Rightarrow>
               (Raised (waiter_error w (''An error occurred: '' @ m)),
                emit (Call (WaiterPoll w n) False) (s\<lparr>tape := rs\<rparr>))
           | Raises e \<Rightarrow> (Raised e, emit (Call (WaiterPoll w n) False) (s\<lparr>tape := rs\<rparr>))
           | _ \<Rightarrow> (Raised (OtherException ''unexpected response''),
                   emit (Call (WaiterPoll w n) False) (s\<lparr>tape := rs\<rparr>))))"
  by (simp add: waiter_poll_def prog_defs split: list.splits response.splits exn.splits)

lemma waiter_loop_shape:
  "\<exists>j ok. j \<le> left \<and>
     tape (snd (waiter_loop w n d left s)) = drop (Suc j) (tape s) \<and>
     trace (snd (waiter_loop w n d left s)) = trace s @ waiter_trace w n d j ok \<and>
     (\<forall>x. fst (waiter_loop w n d left s) \<noteq> Exit x) \<and>
     (ok \<or> fst (waiter_loop w n d left s) \<noteq> Ok ())"
proof (induction left arbitrary: s)
  case 0
  show ?case
    by (rule exI [of _ 0])
      (auto simp: waiter_poll_cases prog_defs waiter_trace_def
        split: list.splits response.splits exn.splits waiter_state.splits)
next
  case (Suc left)
  show ?case
  proof (cases "\<exists>rs. tape s = Status Retry # rs")
    case True
    then obtain rs where t: "tape s = Status Retry # rs" by blast
    define s1 where "s1 = s\<lparr>tape := rs, trace := trace s @ [Call (WaiterPoll w n) True, Call (Sleep d) True]\<rparr>"
    have step: "waiter_loop w n d (Suc left) s = waiter_loop w n d left s1"
      by (simp add: waiter_poll_cases prog_defs t s1_def)
    from Suc.IH [of s1] obtain j ok where j: "j \<le> left"
      "tape (snd (waiter_loop w n d left s1)) = drop (Suc j) (tape s1)"
      "trace (snd (waiter_loop w n d left s1)) = trace s1 @ waiter_trace w n d j ok"
      "\<forall>x. fst (waiter_loop w n d left s1) \<noteq> Exit x"
      "ok \<or> fst (waiter_loop w n d left s1) \<noteq> Ok ()"
      by blast
    show ?thesis
      apply (rule exI [of _ "Suc j"], rule exI [of _ ok])
      using j unfolding step by (simp add: s1_def t waiter_trace_Suc [symmetric])
  next
    case False
    then show ?thesis
      by (intro exI [of _ 0])
        (auto simp: waiter_poll_cases prog_defs waiter_trace_def
          split: list.splits response.splits exn.splits waiter_state.splits)
  qed
qed


lemma waiter_loop_success:
  "tape s = replicate j (Status Retry) @ Status Success # rest \<Longrightarrow> j \<le> left \<Longrightarrow>
   waiter_loop w n d left s =
     (Ok (), s\<lparr>tape := rest, trace := trace s @ waiter_trace w n d j True\<rparr>)"
proof (induction left arbitrary: s j)
  case 0
  then show ?case
    by (simp add: waiter_poll_cases prog_defs waiter_trace_def)
next
  case (Suc left)
  show ?case
  proof (cases j)
    case 0
    with Suc.prems show ?thesis
      by (simp add: waiter_poll_cases prog_defs waiter_trace_def)
  next
    case (Suc i)
    with Suc.prems show ?thesis
      by (simp add: waiter_poll_cases prog_defs Suc.IH [of _ i] waiter_trace_Suc [symmetric])
  qed
qed

lemma waiter_loop_failure:
  "tape s = replicate j (Status Retry) @ Status Failure # rest \<Longrightarrow> j \<le> left \<Longrightarrow>
   waiter_loop w n d left s =
     (Raised (waiter_error w ''Waiter encountered a terminal failure state''),
      s\<lparr>tape := rest, trace := trace s @ waiter_trace w n d j True\<rparr>)"
proof (induction left arbitrary: s j)
  case 0
  then show ?case
    by (simp add: waiter_poll_cases prog_defs waiter_trace_def)
next
  case (Suc left)
  show ?case
  proof (cases j)
    case 0
    with Suc.prems show ?thesis
      by (simp add: waiter_poll_cases prog_defs waiter_trace_def)
  next
    case (Suc i)
    with Suc.prems show ?thesis
      by (simp add: waiter_poll_cases prog_defs Suc.IH [of _ i] waiter_trace_Suc [symmetric])
  qed
qed

lemma waiter_loop_timeout:
  "tape s = replicate (Suc left) (Status Retry) @ rest \<Longrightarrow>
   waiter_loop w n d left s =
     (Raised (waiter_error w ''Max attempts exceeded''),
      s\<lparr>tape := rest, trace := trace s @ waiter_trace w n d left True\<rparr>)"
proof (induction left arbitrary: s)
  case 0
  then show ?case
    by (simp add: waiter_poll_cases prog_defs waiter_trace_def)
next
  case (Suc left)
  then show ?case
    by (simp add: waiter_poll_cases prog_defs Suc.IH waiter_trace_Suc [symmetric])
qed



lemma print_failed_events_eq:
  "print_failed_events evs s =
     (Ok (), s\<lparr>trace := trace s @ map Print (failed_event_lines evs)\<rparr>)"
  by (induction evs arbitrary: s) (simp_all add: prog_defs)

lemma length_failed_event_lines: "length (failed_event_lines evs) \<le> length evs"
  by (induction evs) simp_all

lemma dump_stack_events_cases:
  "dump_stack_events n s =
     (case tape s of
        [] \<Rightarrow> (Ok (), emit (Call (DescribeStackEvents n) False) s)
      | r # rs \<Rightarrow>
          (case r of
             StackEvents evs \<Rightarrow>
               (Ok (), s\<lparr>tape := rs, trace := trace s @
                  Call (DescribeStackEvents n) True # Print (newline @ ''Recent stack events:'') #
                  map Print (failed_event_lines (take 10 evs))\<rparr>)
           | Raises e \<Rightarrow>
               (if is_Exception e then Ok () else Raised e,
                emit (Call (DescribeStackEvents n) False) (s\<lparr>tape := rs\<rparr>))
           | _ \<Rightarrow> (Ok (), emit (Call (DescribeStackEvents n) False) (s\<lparr>tape := rs\<rparr>))))"
  by (simp add: dump_stack_events_def prog_defs client_defs print_failed_events_eq
      split: list.splits response.splits)

lemma printed_append [simp]: "printed (xs @ ys) = printed xs @ printed ys"
  by (induction xs rule: printed.induct) auto

lemma printed_map_Print [simp]: "printed (map Print ls) = ls"
  by (induction ls) auto

lemma requests_map_Print [simp]: "requests (map Print ls) = []"
  by (induction ls) auto

lemma dump_stack_events_shape:
  "\<exists>tail. trace (snd (dump_stack_events n s)) = trace s @ tail \<and>
     requests tail = [DescribeStackEvents n] \<and> length (printed tail) \<le> 11 \<and>
     tape (snd (dump_stack_events n s)) = tl (tape s) \<and>
     (fst (dump_stack_events n s) = Ok () \<or>
      fst (dump_stack_events n s) = Raised KeyboardInterrupt \<and> interrupts (tape s))"
proof -
  have ten: "length (failed_event_lines (take 10 evs)) \<le> 10" for evs
    using length_failed_event_lines [of "take 10 evs"] by simp
  show ?thesis
    by (cases "tape s"; (cases "hd (tape s)")?)
      (auto simp: dump_stack_events_cases emit_def ten split: response.splits
        elim: is_Exception.elims)
qed



lemma wait_for_stack_creation_with:
  "wait_for_stack_creation n =
     wait_with ''stack_create_complete'' (''Waiting for stack '' @ n @ '' to be created...'')
       (''Stack '' @ n @ '' created successfully!'') ''Stack creation failed: '' n"
  by (simp add: wait_for_stack_creation_def wait_with_def)

lemma wait_for_stack_deletion_with:
  "wait_for_stack_deletion n =
     wait_with ''stack_delete_complete'' (''Waiting for stack '' @ n @ '' to be deleted...'')
       (''Stack '' @ n @ '' deleted successfully!'') ''Stack deletion failed: '' n"
  by (simp add: wait_for_stack_deletion_def wait_with_def)

lemma wait_with_shape:
  "\<exists>j ok l1 l2 tail. j < 120 \<and>
     trace (snd (wait_with w a b c n s)) =
       trace s @ Print l1 # Print l2 # waiter_trace w n 30 j ok @
       Call (WaiterWait w n 30 120) (fst (wait_with w a b c n s) = Ok True) # tail \<and>
     (requests tail = [] \<or> requests tail = [DescribeStackEvents n]) \<and>
     length (printed tail) \<le> 12 \<and>
     (fst (wait_with w a b c n s) = Ok True \<or> fst (wait_with w a b c n s) = Ok False \<or>
      (\<exists>e. fst (wait_with w a b c n s) = Raised e))"
proof -
  define l1 where "l1 = info_mark @ '' '' @ a"
  define l2 where "l2 = info_mark @ '' This may take several minutes. Please be patient.''"
  define s0 where "s0 = s\<lparr>trace := trace s @ [Print l1, Print l2]\<rparr>"
  obtain r s1 where L: "waiter_loop w n 30 119 s0 = (r, s1)"
    by force
  from waiter_loop_shape [of 119 w n 30 s0] obtain j ok where
    shape: "j \<le> 119"
      "trace (snd (waiter_loop w n 30 119 s0)) = trace s0 @ waiter_trace w n 30 j ok"
      "\<forall>x. fst (waiter_loop w n 30 119 s0) \<noteq> Exit x"
    by blast
  from shape L have j: "j < 120" and tr: "trace s1 = trace s0 @ waiter_trace w n 30 j ok"
    and nx: "\<forall>x. r \<noteq> Exit x"
    by simp_all
  define ww where "ww = WaiterWait w n 30 120"
  have W: "wait_with w a b c n s =
     (case r of
        Ok u \<Rightarrow> (Ok True, s1\<lparr>trace := trace s1 @ [Call ww True, Print (check_mark @ '' '' @ b)]\<rparr>)
      | Raised e \<Rightarrow>
         (case e of
            WaiterError m \<Rightarrow>
              (case dump_stack_events n
                 (s1\<lparr>trace := trace s1 @ [Call ww False, Print (ballot_x @ '' ERROR: '' @ c @ m)]\<rparr>) of
                 (Ok u, s2) \<Rightarrow> (Ok False, s2)
               | (Raised e', s2) \<Rightarrow> (Raised e', s2)
               | (Exit x, s2) \<Rightarrow> (Exit x, s2))
          | _ \<Rightarrow> (Raised e, s1\<lparr>trace := trace s1 @ [Call ww False]\<rparr>))
      | Exit x \<Rightarrow> (Exit x, s1\<lparr>trace := trace s1 @ [Call ww False]\<rparr>))"
    using L
    by (simp add: wait_with_def waiter_wait_def prog_defs report_defs s0_def l1_def l2_def
        ww_def split: result.splits exn.splits prod.splits)
  from nx consider (ok) "r = Ok ()" | (we) m where "r = Raised (WaiterError m)"
    | (other) e where "r = Raised e" "\<forall>m. e \<noteq> WaiterError m"
    by (cases r) auto
  then show ?thesis
  proof cases
    case ok
    show ?thesis
      apply (rule exI [of _ j], rule exI [of _ ok], rule exI [of _ l1], rule exI [of _ l2])
      apply (rule exI [of _ "[Print (check_mark @ '' '' @ b)]"])
      using j by (simp add: W \<open>r = Ok ()\<close> tr s0_def ww_def)
  next
    case we
    define s2 where "s2 = s1\<lparr>trace := trace s1 @
      [Call ww False, Print (ballot_x @ '' ERROR: '' @ c @ m)]\<rparr>"
    from dump_stack_events_shape [of n s2] obtain t where
      t: "trace (snd (dump_stack_events n s2)) = trace s2 @ t"
        "requests t = [DescribeStackEvents n]" "length (printed t) \<le> 11"
        "fst (dump_stack_events n s2) = Ok () \<or> fst (dump_stack_events n s2) = Raised KeyboardInterrupt"
      by blast
    have Wwe: "wait_with w a b c n s =
        (case fst (dump_stack_events n s2) of
           Ok u \<Rightarrow> Ok False | Raised e' \<Rightarrow> Raised e' | Exit x \<Rightarrow> Exit x,
         snd (dump_stack_events n s2))"
      by (simp add: W we s2_def split: prod.splits result.splits)
    show ?thesis
      apply (rule exI [of _ j], rule exI [of _ ok], rule exI [of _ l1], rule exI [of _ l2])
      apply (rule exI [of _ "Print (ballot_x @ '' ERROR: '' @ c @ m) # t"])
      using j t unfolding Wwe
      by (auto simp: s2_def tr s0_def ww_def)
  next
    case other
    show ?thesis
      apply (rule exI [of _ j], rule exI [of _ ok], rule exI [of _ l1], rule exI [of _ l2])
      apply (rule exI [of _ "[]"])
      using j other by (cases e) (simp_all add: W tr s0_def ww_def)
  qed
qed



lemma waiter_trace_polls:
  "filter is_WaiterPoll (requests (waiter_trace w n d j ok)) = replicate (Suc j) (WaiterPoll w n)"
  by (induction j) (simp_all add: waiter_trace_def replicate_append_same)

lemma waiter_trace_sleeps:
  "filter is_Sleep (requests (waiter_trace w n d j ok)) = replicate j (Sleep d)"
  by (induction j) (simp_all add: waiter_trace_def)

lemma waiter_trace_calls:
  "(c, b) \<in> set (calls (waiter_trace w n d j ok)) \<Longrightarrow> c = WaiterPoll w n \<or> c = Sleep d"
  by (induction j) (auto simp: waiter_trace_def)

lemma waiter_trace_printed [simp]: "printed (waiter_trace w n d j ok) = []"
  by (induction j) (simp_all add: waiter_trace_def)

lemma waiter_trace_operations [simp]: "operations (waiter_trace w n d j ok) = []"
  by (induction j) (simp_all add: waiter_trace_def)

lemma operations_append [simp]:
  "operations (xs @ ys) = operations xs @ operations ys"
  by (induction xs rule: operations.induct) (auto split: option.splits)

lemma operations_none:
  "\<forall>c \<in> set (requests tr). op_of c = None \<Longrightarrow> operations tr = []"
  by (induction tr rule: operations.induct) auto

lemma added_append: "trace (snd (m s)) = trace s @ new \<Longrightarrow> added m s = new"
  by (simp add: added_def)

lemma wait_with_poll_bound:
  "length (filter is_WaiterPoll (requests (added (wait_with w a b c n) s))) \<le> 120 \<and>
   filter is_Sleep (requests (added (wait_with w a b c n) s)) =
     replicate (length (filter is_WaiterPoll (requests (added (wait_with w a b c n) s))) - 1)
       (Sleep 30) \<and>
   (\<forall>x. fst (wait_with w a b c n s) \<noteq> Exit x) \<and>
   (fst (wait_with w a b c n s) = Ok True) =
     ((WaiterWait w n 30 120, True) \<in> set (calls (added (wait_with w a b c n) s))) \<and>
   length (printed (added (wait_with w a b c n) s)) \<le> 14 \<and>
   operations (added (wait_with w a b c n) s) =
     [(Await w n, fst (wait_with w a b c n s) = Ok True)]"
proof -
  from wait_with_shape [of w a b c n s] obtain j ok l1 l2 tail where
    j: "j < 120" and
    tr: "trace (snd (wait_with w a b c n s)) =
       trace s @ Print l1 # Print l2 # waiter_trace w n 30 j ok @
       Call (WaiterWait w n 30 120) (fst (wait_with w a b c n s) = Ok True) # tail" and
    tail: "requests tail = [] \<or> requests tail = [DescribeStackEvents n]"
      "length (printed tail) \<le> 12" and
    res: "fst (wait_with w a b c n s) = Ok True \<or> fst (wait_with w a b c n s) = Ok False \<or>
      (\<exists>e. fst (wait_with w a b c n s) = Raised e)"
    by blast
  note new = added_append [of "wait_with w a b c n" s, OF tr]
  have no_ww: "(WaiterWait w n 30 120, True) \<notin> set (calls tail)"
  proof
    assume "(WaiterWait w n 30 120, True) \<in> set (calls tail)"
    then have "WaiterWait w n 30 120 \<in> set (requests tail)"
      by (force simp: requests_def)
    with tail(1) show False by auto
  qed
  have no_ww': "(WaiterWait w n 30 120, True) \<notin> set (calls (waiter_trace w n 30 j ok))"
    using waiter_trace_calls by blast
  have prov: "operations tail = []"
    using tail(1) by (intro operations_none) auto
  have f: "filter is_WaiterPoll (requests tail) = []" "filter is_Sleep (requests tail) = []"
    using tail(1) by auto
  show ?thesis
    using j tail(2) res no_ww no_ww'
    by (auto simp: new waiter_trace_polls waiter_trace_sleeps f prov)
qed



lemma wait_with_success:
  assumes "tape s = replicate j (Status Retry) @ Status Success # rest" and "j < 120"
  shows "wait_with w a b c n s =
     (Ok True, s\<lparr>tape := rest, trace := trace s @
        Print (info_mark @ '' '' @ a) #
        Print (info_mark @ '' This may take several minutes. Please be patient.'') #
        waiter_trace w n 30 j True @
        [Call (WaiterWait w n 30 120) True, Print (check_mark @ '' '' @ b)]\<rparr>)"
  using assms
    waiter_loop_success [of "s\<lparr>trace := trace s @
        [Print (info_mark @ '' '' @ a),
         Print (info_mark @ '' This may take several minutes. Please be patient.'')]\<rparr>"
      j rest 119 w n 30]
  by (simp add: wait_with_def waiter_wait_def prog_defs report_defs)

lemma wait_with_no_success:
  assumes "tape s = replicate j (Status Retry) @ Status Failure # rest \<and> j < 120 \<or>
           tape s = replicate j (Status Retry) @ Status Retry # rest \<and> j = 119"
  shows "\<exists>m. wait_with w a b c n s =
     (case dump_stack_events n (s\<lparr>tape := rest, trace := trace s @
        Print (info_mark @ '' '' @ a) #
        Print (info_mark @ '' This may take several minutes. Please be patient.'') #
        waiter_trace w n 30 j True @
        [Call (WaiterWait w n 30 120) False, Print (ballot_x @ '' ERROR: '' @ c @ m)]\<rparr>) of
        (Ok u, s3) \<Rightarrow> (Ok False, s3)
      | (Raised e, s3) \<Rightarrow> (Raised e, s3)
      | (Exit x, s3) \<Rightarrow> (Exit x, s3))"
proof -
  define s0 where "s0 = s\<lparr>trace := trace s @
        [Print (info_mark @ '' '' @ a),
         Print (info_mark @ '' This may take several minutes. Please be patient.'')]\<rparr>"
  have tmo: "replicate 119 x @ x # rest = replicate (Suc 119) x @ rest" for x :: response
    by (simp only: replicate_app_Cons_same replicate_Suc append_Cons)
  from assms show ?thesis
  proof (elim disjE conjE)
    assume "tape s = replicate j (Status Retry) @ Status Failure # rest" "j < 120"
    then show ?thesis
      using waiter_loop_failure [of s0 j rest 119 w n 30]
      by (intro exI [of _ "''Waiter '' @ w @ '' failed: Waiter encountered a terminal failure state''"])
        (simp add: wait_with_def waiter_wait_def prog_defs report_defs s0_def waiter_error_def
          split: prod.splits result.splits)
  next
    assume "tape s = replicate j (Status Retry) @ Status Retry # rest" "j = 119"
    then have "tape s0 = replicate (Suc 119) (Status Retry) @ rest"
      by (simp only: tmo) (simp add: s0_def)
    from waiter_loop_timeout [OF this, of w n 30] \<open>j = 119\<close> show ?thesis
      by (intro exI [of _ "''Waiter '' @ w @ '' failed: Max attempts exceeded''"])
        (simp add: wait_with_def waiter_wait_def prog_defs report_defs s0_def waiter_error_def
          split: prod.splits result.splits)
  qed
qed

lemma interrupts_cases:
  "interrupts rest = (\<exists>t. rest = Raises KeyboardInterrupt # t)"
  by (cases rest rule: interrupts.cases) simp_all

lemma wait_with_failed:
  assumes "tape s = replicate j (Status Retry) @ Status Failure # rest \<and> j < 120 \<or>
           tape s = replicate j (Status Retry) @ Status Retry # rest \<and> j = 119"
  shows "fst (wait_with w a b c n s) =
           (if interrupts rest then Raised KeyboardInterrupt else Ok False) \<and>
         length (filter is_WaiterPoll (requests (added (wait_with w a b c n) s))) = Suc j \<and>
         (\<forall>evs t. rest = StackEvents evs # t \<longrightarrow>
            drop 4 (printed (added (wait_with w a b c n) s)) =
              failed_event_lines (take 10 evs))"
proof -
  from wait_with_no_success [OF assms, of w a b c n] obtain m where
    W: "wait_with w a b c n s =
     (case dump_stack_events n (s\<lparr>tape := rest, trace := trace s @
        Print (info_mark @ '' '' @ a) #
        Print (info_mark @ '' This may take several minutes. Please be patient.'') #
        waiter_trace w n 30 j True @
        [Call (WaiterWait w n 30 120) False, Print (ballot_x @ '' ERROR: '' @ c @ m)]\<rparr>) of
        (Ok u, s3) \<Rightarrow> (Ok False, s3)
      | (Raised e, s3) \<Rightarrow> (Raised e, s3)
      | (Exit x, s3) \<Rightarrow> (Exit x, s3))"
    by blast
  show ?thesis
    unfolding added_def W
    by (cases rest; (cases "hd rest")?)
      (auto simp: dump_stack_events_cases emit_def waiter_trace_polls interrupts_cases
        split: response.splits elim: is_Exception.elims)
qed

text \<open>
  C9. Every poll loop awaiting a stack's terminal state terminates. Both
  \<^verbatim>\<open>wait_for_stack_creation\<close> and \<^verbatim>\<open>wait_for_stack_deletion\<close> are total functions of the
  state, so they return on every tape of responses. A wait polls at most 120 times, and
  between two polls it sleeps exactly 30 seconds. It never exits the process, and it
  returns \<open>True\<close> exactly when the waiter itself returned; so a timeout or a failed
  terminal state gives \<open>False\<close> (or the operator's interrupt, which the handler does not
  catch), never \<open>True\<close>. A terminal success after fewer than 120 ``retry'' answers gives
  \<open>True\<close>; a terminal failure after \<open>j\<close> of them ends the loop at poll \<open>j + 1\<close>; 120
  ``retry'' answers end it at poll 120. The diagnostic dump is bounded: a wait prints at
  most 14 lines, and when the events can be fetched it prints, after its four lines of
  report, one line for each failure-tagged event among the first ten, hence at most ten.
\<close>

theorem poll_loop_bounded:
  assumes "wait = wait_for_stack_creation \<and> w = ''stack_create_complete'' \<or>
           wait = wait_for_stack_deletion \<and> w = ''stack_delete_complete''"
  shows "length (filter is_WaiterPoll (requests (added (wait name) s))) \<le> 120 \<and>
    filter is_Sleep (requests (added (wait name) s)) =
      replicate (length (filter is_WaiterPoll (requests (added (wait name) s))) - 1)
        (Sleep 30) \<and>
    (\<forall>x. fst (wait name s) \<noteq> Exit x) \<and>
    (fst (wait name s) = Ok True) =
      ((WaiterWait w name 30 120, True) \<in> set (calls (added (wait name) s))) \<and>
    length (printed (added (wait name) s)) \<le> 14 \<and>
    (j < 120 \<and> tape s = replicate j (Status Retry) @ Status Success # rest \<longrightarrow>
       fst (wait name s) = Ok True) \<and>
    (j < 120 \<and> tape s = replicate j (Status Retry) @ Status Failure # rest \<longrightarrow>
       fst (wait name s) = (if interrupts rest then Raised KeyboardInterrupt else Ok False) \<and>
       length (filter is_WaiterPoll (requests (added (wait name) s))) = Suc j) \<and>
    (tape s = replicate 120 (Status Retry) @ rest \<longrightarrow>
       fst (wait name s) = (if interrupts rest then Raised KeyboardInterrupt else Ok False) \<and>
       length (filter is_WaiterPoll (requests (added (wait name) s))) = 120) \<and>
    ((j < 120 \<and> tape s = replicate j (Status Retry) @ Status Failure # StackEvents evs # rest' \<or>
      tape s = replicate 120 (Status Retry) @ StackEvents evs # rest') \<longrightarrow>
       fst (wait name s) = Ok False \<and>
       drop 4 (printed (added (wait name) s)) = failed_event_lines (take 10 evs) \<and>
       length (failed_event_lines (take 10 evs)) \<le> 10)"
proof -
  from assms obtain a b c where W: "wait name = wait_with w a b c name"
    using wait_for_stack_creation_with wait_for_stack_deletion_with by metis
  have tmo: "replicate 120 x @ r = replicate 119 x @ x # r" for x :: response and r
  proof -
    have "replicate (Suc 119) x @ r = replicate 119 x @ x # r"
      by (simp only: replicate_app_Cons_same replicate_Suc append_Cons)
    then show ?thesis by simp
  qed
  have ten: "length (failed_event_lines (take 10 evs)) \<le> 10"
    using length_failed_event_lines [of "take 10 evs"] by simp
  have general: "length (filter is_WaiterPoll (requests (added (wait name) s))) \<le> 120 \<and>
    filter is_Sleep (requests (added (wait name) s)) =
      replicate (length (filter is_WaiterPoll (requests (added (wait name) s))) - 1)
        (Sleep 30) \<and>
    (\<forall>x. fst (wait name s) \<noteq> Exit x) \<and>
    (fst (wait name s) = Ok True) =
      ((WaiterWait w name 30 120, True) \<in> set (calls (added (wait name) s))) \<and>
    length (printed (added (wait name) s)) \<le> 14"
    unfolding W using wait_with_poll_bound [of w a b c name s] by blast
  have success: "fst (wait name s) = Ok True"
    if "j < 120" "tape s = replicate j (Status Retry) @ Status Success # rest"
    unfolding W using wait_with_success [OF that(2,1)] by simp
  have failure: "fst (wait name s) =
        (if interrupts r then Raised KeyboardInterrupt else Ok False) \<and>
      length (filter is_WaiterPoll (requests (added (wait name) s))) = Suc j \<and>
      (\<forall>evs t. r = StackEvents evs # t \<longrightarrow>
         drop 4 (printed (added (wait name) s)) = failed_event_lines (take 10 evs))"
    if "j < 120" "tape s = replicate j (Status Retry) @ Status Failure # r" for r
    unfolding W using wait_with_failed [of s j r w a b c name] that by blast
  have timeout: "fst (wait name s) =
        (if interrupts r then Raised KeyboardInterrupt else Ok False) \<and>
      length (filter is_WaiterPoll (requests (added (wait name) s))) = 120 \<and>
      (\<forall>evs t. r = StackEvents evs # t \<longrightarrow>
         drop 4 (printed (added (wait name) s)) = failed_event_lines (take 10 evs))"
    if "tape s = replicate 120 (Status Retry) @ r" for r
    unfolding W using wait_with_failed [of s 119 r w a b c name] that by (simp add: tmo)
  show ?thesis
    using general success failure [of rest] timeout [of rest]
      failure [of "StackEvents evs # rest'"] timeout [of "StackEvents evs # rest'"] ten
    by (simp (no_asm_simp))
qed



theorem poll_loop_bounded_witness:
  "fst (wait_for_stack_creation ''udagram-network''
     \<lparr>tape = replicate 120 (Status Retry), trace = []\<rparr>) = Ok False \<and>
   length (filter is_WaiterPoll (requests (added (wait_for_stack_creation ''udagram-network'')
     \<lparr>tape = replicate 120 (Status Retry), trace = []\<rparr>))) = 120 \<and>
   fst (wait_for_stack_deletion ''udagram-app''
     \<lparr>tape = [Status Retry, Status Success], trace = []\<rparr>) = Ok True \<and>
   fst (wait_for_stack_deletion ''udagram-app''
     \<lparr>tape = [Status Failure, StackEvents
        [\<lparr>LogicalResourceId = ''WebAppGroup'', ResourceStatus = Some ''DELETE_FAILED'',
          ResourceStatusReason = None\<rparr>,
         \<lparr>LogicalResourceId = ''Bucket'', ResourceStatus = Some ''DELETE_COMPLETE'',
          ResourceStatusReason = None\<rparr>]],
      trace = []\<rparr>) = Ok False \<and>
   drop 4 (printed (added (wait_for_stack_deletion ''udagram-app'')
     \<lparr>tape = [Status Failure, StackEvents
        [\<lparr>LogicalResourceId = ''WebAppGroup'', ResourceStatus = Some ''DELETE_FAILED'',
          ResourceStatusReason = None\<rparr>,
         \<lparr>LogicalResourceId = ''Bucket'', ResourceStatus = Some ''DELETE_COMPLETE'',
          ResourceStatusReason = None\<rparr>]],
      trace = []\<rparr>)) = [''  - WebAppGroup: Unknown error'']"
proof -
  have failed: "sublist ''FAILED'' ''DELETE_FAILED''"
    by code_simp
  have complete: "\<not> sublist ''FAILED'' ''DELETE_COMPLETE''"
    by code_simp
  show ?thesis
    using poll_loop_bounded [where wait = wait_for_stack_creation
        and w = "''stack_create_complete''" and name = "''udagram-network''"
        and s = "\<lparr>tape = replicate 120 (Status Retry), trace = []\<rparr>" and rest = "[]"
        and j = 0 and evs = "[]" and rest' = "[]"]
      poll_loop_bounded [where wait = wait_for_stack_deletion
        and w = "''stack_delete_complete''" and name = "''udagram-app''"
        and s = "\<lparr>tape = [Status Retry, Status Success], trace = []\<rparr>"
        and j = "Suc 0" and rest = "[]" and evs = "[]" and rest' = "[]"]
      poll_loop_bounded [where wait = wait_for_stack_deletion
        and w = "''stack_delete_complete''" and name = "''udagram-app''"
        and s = "\<lparr>tape = [Status Failure, StackEvents
          [\<lparr>LogicalResourceId = ''WebAppGroup'', ResourceStatus = Some ''DELETE_FAILED'',
            ResourceStatusReason = None\<rparr>,
           \<lparr>LogicalResourceId = ''Bucket'', ResourceStatus = Some ''DELETE_COMPLETE'',
            ResourceStatusReason = None\<rparr>]], trace = []\<rparr>"
        and j = 0 and rest' = "[]" and rest = "[]"
        and evs = "[\<lparr>LogicalResourceId = ''WebAppGroup'', ResourceStatus = Some ''DELETE_FAILED'',
            ResourceStatusReason = None\<rparr>,
           \<lparr>LogicalResourceId = ''Bucket'', ResourceStatus = Some ''DELETE_COMPLETE'',
            ResourceStatusReason = None\<rparr>]"]
    by (simp add: failed complete)
qed
subsection \<open>The create flow, stage by stage\<close>

text \<open>
  Printing is quiet, and each helper of the create flow adds one operation to the trace;
  its result tells the outcome of the operation where the flow depends on it.
\<close>

lemma pbind_cases:
  "pbind m f s = (case fst (m s) of Ok a \<Rightarrow> f a (snd (m s)) | Raised e \<Rightarrow> (Raised e, snd (m s))
     | Exit n \<Rightarrow> (Exit n, snd (m s)))"
  by (simp add: pbind_def split: prod.splits result.splits)

lemma try_except_cases:
  "try_except m h s = (case fst (m s) of Ok a \<Rightarrow> (Ok a, snd (m s)) | Raised e \<Rightarrow> h e (snd (m s))
     | Exit n \<Rightarrow> (Exit n, snd (m s)))"
  by (simp add: try_except_def split: prod.splits result.splits)

lemma quiet_ret [intro!]: "quiet (ret a)"
  by (simp add: quiet_def ret_def)

lemma quiet_raise [intro!]: "quiet (raise e)"
  by (simp add: quiet_def raise_def)

lemma quiet_sys_exit [intro!]: "quiet (sys_exit 1)" "quiet (sys_exit (Suc 0))"
  by (simp_all add: quiet_def sys_exit_def)

lemma quiet_print [intro!]: "quiet (print l)"
  by (simp add: quiet_def print_def emit_def)

lemma quiet_report [intro!]:
  "quiet (print_section l)" "quiet (print_success l)" "quiet (print_error l)"
  "quiet (print_info l)" "quiet (print_warning l)"
  by (simp_all add: quiet_def report_defs prog_defs)

lemma quiet_pbind [intro!]: "quiet m \<Longrightarrow> (\<And>a. quiet (f a)) \<Longrightarrow> quiet (pbind m f)"
  unfolding quiet_def pbind_cases by (auto split: result.splits)

lemma quiet_pthen [intro!]: "quiet m \<Longrightarrow> quiet k \<Longrightarrow> quiet (pthen m k)"
  by (simp add: pthen_def quiet_pbind)

lemma quiet_if_then [intro!]: "quiet m \<Longrightarrow> quiet (if_then c m)"
  by (simp add: if_then_def quiet_ret)

lemma quiet_if [intro!]: "quiet m \<Longrightarrow> quiet k \<Longrightarrow> quiet (if c then m else k)"
  by simp

lemma operations_snoc [simp]:
  "operations (tr @ [Call c ok]) =
     operations tr @ (case op_of c of Some x \<Rightarrow> [(x, ok)] | None \<Rightarrow> [])"
  by (simp split: option.splits)

lemma leads_quiet: "quiet m \<Longrightarrow> G p \<Longrightarrow> (\<And>a. Q a p) \<Longrightarrow> leads G p m Q"
  by (auto simp: quiet_def leads_def split: result.splits)

lemma leads_pbind:
  assumes "leads G p m Q" and "\<And>a p'. Q a p' \<Longrightarrow> leads G p' (f a) R"
  shows "leads G p (pbind m f) R"
  unfolding leads_def
proof (intro allI impI)
  fix s :: st
  assume "operations (trace s) = p"
  with assms(1) have M: "case fst (m s) of
       Ok a \<Rightarrow> Q a (operations (trace (snd (m s))))
     | Raised e \<Rightarrow> G (operations (trace (snd (m s))))
     | Exit n \<Rightarrow> n = 1 \<and> G (operations (trace (snd (m s))))"
    by (simp add: leads_def)
  show "case fst (pbind m f s) of
       Ok a \<Rightarrow> R a (operations (trace (snd (pbind m f s))))
     | Raised e \<Rightarrow> G (operations (trace (snd (pbind m f s))))
     | Exit n \<Rightarrow> n = 1 \<and> G (operations (trace (snd (pbind m f s))))"
  proof (cases "fst (m s)")
    case (Ok a)
    with M have "Q a (operations (trace (snd (m s))))"
      by simp
    then have "leads G (operations (trace (snd (m s)))) (f a) R"
      by (rule assms(2))
    then have "case fst (f a (snd (m s))) of
         Ok b \<Rightarrow> R b (operations (trace (snd (f a (snd (m s))))))
       | Raised e \<Rightarrow> G (operations (trace (snd (f a (snd (m s))))))
       | Exit n \<Rightarrow> n = 1 \<and> G (operations (trace (snd (f a (snd (m s))))))"
      by (simp add: leads_def)
    with Ok show ?thesis
      by (auto simp: pbind_cases split: result.splits)
  next
    case (Raised e)
    with M show ?thesis
      by (simp add: pbind_cases)
  next
    case (Exit n)
    with M show ?thesis
      by (simp add: pbind_cases)
  qed
qed

lemma leads_pthen:
  "leads G p m Q \<Longrightarrow> (\<And>a p'. Q a p' \<Longrightarrow> leads G p' k R) \<Longrightarrow> leads G p (pthen m k) R"
  unfolding pthen_def by (rule leads_pbind)

lemma leads_pthen_quiet:
  "quiet m \<Longrightarrow> G p \<Longrightarrow> leads G p k R \<Longrightarrow> leads G p (pthen m k) R"
  by (rule leads_pthen [where Q = "\<lambda>a p'. p' = p"]) (auto intro: leads_quiet)

lemma leads_pbind_quiet:
  "quiet m \<Longrightarrow> G p \<Longrightarrow> (\<And>a. leads G p (f a) R) \<Longrightarrow> leads G p (pbind m f) R"
  by (rule leads_pbind [where Q = "\<lambda>_ p'. p' = p"]) (auto intro: leads_quiet)

lemma leads_pbind_step:
  "leads G p m (\<lambda>a p'. p' = q) \<Longrightarrow> (\<And>a. leads G q (f a) R) \<Longrightarrow> leads G p (pbind m f) R"
  by (rule leads_pbind [where Q = "\<lambda>a p'. p' = q"]) auto

lemma leads_pthen_any:
  "leads G p m (\<lambda>a p'. \<exists>ok. p' = p @ [(x, ok)]) \<Longrightarrow>
   (\<And>ok. leads G (p @ [(x, ok)]) k R) \<Longrightarrow> leads G p (pthen m k) R"
  by (rule leads_pthen [where Q = "\<lambda>a p'. \<exists>ok. p' = p @ [(x, ok)]"]) auto

lemma leads_pbind_any:
  "leads G p m (\<lambda>a p'. \<exists>ok. p' = p @ [(x, ok)]) \<Longrightarrow>
   (\<And>a ok. leads G (p @ [(x, ok)]) (f a) R) \<Longrightarrow> leads G p (pbind m f) R"
  by (rule leads_pbind [where Q = "\<lambda>a p'. \<exists>ok. p' = p @ [(x, ok)]"]) auto

lemma leads_pthen_ret:
  "(\<And>p'. R () p' \<Longrightarrow> G p') \<Longrightarrow> leads G p m (\<lambda>a. R ()) \<Longrightarrow> leads G p (pthen m (ret ())) R"
  by (rule leads_pthen [where Q = "\<lambda>a. R ()"]) (auto intro: leads_quiet)

lemma leads_create_stack_exists:
  "G (p @ [(Describe n, False)]) \<Longrightarrow>
   leads G p (create_stack_exists n) (\<lambda>found p'. p' = p @ [(Describe n, found)])"
  by (auto simp: leads_def create_stack_exists_def describe_stacks_def prog_defs
      split: list.splits response.splits option.splits exn.splits)

lemma leads_read_template:
  "G (p @ [(Load f, False)]) \<Longrightarrow>
   leads G p (read_template f) (\<lambda>t p'. p' = p @ [(Load f, True)])"
  by (auto simp: leads_def read_template_def open_read_def prog_defs report_defs
      split: list.splits response.splits option.splits exn.splits)

lemma leads_read_parameters:
  "G (p @ [(Load f, False)]) \<Longrightarrow>
   leads G p (read_parameters f) (\<lambda>t p'. p' = p @ [(Load f, True)])"
  by (auto simp: leads_def read_parameters_def json_load_def prog_defs report_defs
      split: list.splits response.splits option.splits exn.splits)

lemma leads_create_stack:
  "G (p @ [(Submit n, False)]) \<Longrightarrow>
   leads G p (create_stack n t ps) (\<lambda>ok p'. p' = p @ [(Submit n, ok)])"
  by (auto simp: leads_def create_stack_def cf_create_stack_def prog_defs report_defs
      split: list.splits response.splits option.splits exn.splits)

lemma leads_upload_to_s3:
  "G (p @ [(Upload f k, False)]) \<Longrightarrow>
   leads G p (upload_to_s3 b f k) (\<lambda>ok p'. p' = p @ [(Upload f k, ok)])"
  by (auto simp: leads_def upload_to_s3_def upload_file_def prog_defs report_defs
      split: list.splits response.splits option.splits exn.splits)

lemma print_outputs_lines:
  "print_outputs xs s = (Ok (), s\<lparr>trace := trace s @ map Print (output_lines xs)\<rparr>)"
  by (induction xs arbitrary: s) (simp_all add: prog_defs split: option.splits)

lemma operations_map_Print [simp]: "operations (map Print ls) = []"
  by (induction ls) simp_all

lemma leads_display_stack_outputs:
  "(\<And>ok. G (p @ [(Describe n, ok)])) \<Longrightarrow>
   leads G p (display_stack_outputs n) (\<lambda>a p'. \<exists>ok. p' = p @ [(Describe n, ok)])"
  by (auto simp: leads_def display_stack_outputs_def describe_stacks_def prog_defs
      report_defs first_stack_case print_outputs_lines Let_def
      split: list.splits response.splits option.splits exn.splits)

lemma leads_get_stack_output:
  "(\<And>ok. G (p @ [(Describe n, ok)])) \<Longrightarrow>
   leads G p (get_stack_output n k) (\<lambda>a p'. \<exists>ok. p' = p @ [(Describe n, ok)])"
  by (auto simp: leads_def get_stack_output_def describe_stacks_def prog_defs
      report_defs first_stack_case
      split: list.splits response.splits option.splits exn.splits)

lemma wait_with_operations:
  "operations (trace (snd (wait_with w a b c n s))) =
     operations (trace s) @ [(Await w n, fst (wait_with w a b c n s) = Ok True)]"
proof -
  from wait_with_shape [of w a b c n s] obtain new where
    "trace (snd (wait_with w a b c n s)) = trace s @ new"
    by blast
  then have "trace (snd (wait_with w a b c n s)) = trace s @ added (wait_with w a b c n) s"
    by (simp add: added_def)
  then have "operations (trace (snd (wait_with w a b c n s))) =
      operations (trace s) @ operations (added (wait_with w a b c n) s)"
    by (simp only: operations_append)
  with wait_with_poll_bound [of w a b c n s] show ?thesis
    by simp
qed

lemma leads_wait_with:
  assumes "G (p @ [(Await w n, False)])"
  shows "leads G p (wait_with w a b c n) (\<lambda>ok p'. p' = p @ [(Await w n, ok)])"
  unfolding leads_def
proof (intro allI impI)
  fix s :: st
  assume p: "operations (trace s) = p"
  show "case fst (wait_with w a b c n s) of
       Ok ok \<Rightarrow> operations (trace (snd (wait_with w a b c n s))) = p @ [(Await w n, ok)]
     | Raised e \<Rightarrow> G (operations (trace (snd (wait_with w a b c n s))))
     | Exit x \<Rightarrow> x = 1 \<and> G (operations (trace (snd (wait_with w a b c n s))))"
    using assms p wait_with_poll_bound [of w a b c n s]
    by (cases "fst (wait_with w a b c n s)") (auto simp: wait_with_operations)
qed

lemma leads_wait_for_stack_creation:
  "G (p @ [(Await ''stack_create_complete'' n, False)]) \<Longrightarrow>
   leads G p (wait_for_stack_creation n)
     (\<lambda>ok p'. p' = p @ [(Await ''stack_create_complete'' n, ok)])"
  unfolding wait_for_stack_creation_with by (rule leads_wait_with)

lemma leads_gate:
  assumes "leads G p m (\<lambda>ok p'. p' = p @ [(x, ok)])" and "G (p @ [(x, False)])"
    and "leads G (p @ [(x, True)]) k R"
  shows "leads G p
     (pthen (pbind m (\<lambda>ok. if_then (\<not> ok) (pthen (print_error msg) (pthen (sys_exit 1) (ret ())))))
        k) R"
proof -
  have "leads G (p @ [(x, ok)])
      (if_then (\<not> ok) (pthen (print_error msg) (pthen (sys_exit 1) (ret ()))))
      (\<lambda>_ p'. p' = p @ [(x, True)])" for ok
    using assms(2)
    by (cases ok) (auto simp: leads_def prog_defs report_defs)
  then have "leads G p
      (pbind m (\<lambda>ok. if_then (\<not> ok) (pthen (print_error msg) (pthen (sys_exit 1) (ret ())))))
      (\<lambda>_ p'. p' = p @ [(x, True)])"
    by (intro leads_pbind [where Q = "\<lambda>ok p'. p' = p @ [(x, ok)]"]) (use assms(1) in auto)
  then show ?thesis
    by (rule leads_pthen [where Q = "\<lambda>_ p'. p' = p @ [(x, True)]"]) (use assms(3) in auto)
qed

lemma leads_refuse:
  assumes "leads G p m (\<lambda>found p'. p' = p @ [(x, found)])" and "G (p @ [(x, True)])"
    and "leads G (p @ [(x, False)]) k R"
  shows "leads G p
     (pthen (pbind m (\<lambda>found. if_then found
        (pthen (print_error msg) (pthen (print_info hint) (pthen (sys_exit 1) (ret ()))))))
        k) R"
proof -
  have "leads G (p @ [(x, found)])
      (if_then found
        (pthen (print_error msg) (pthen (print_info hint) (pthen (sys_exit 1) (ret ())))))
      (\<lambda>_ p'. p' = p @ [(x, False)])" for found
    using assms(2)
    by (cases found) (auto simp: leads_def prog_defs report_defs)
  then have "leads G p
      (pbind m (\<lambda>found. if_then found
        (pthen (print_error msg) (pthen (print_info hint) (pthen (sys_exit 1) (ret ()))))))
      (\<lambda>_ p'. p' = p @ [(x, False)])"
    by (intro leads_pbind [where Q = "\<lambda>found p'. p' = p @ [(x, found)]"])
      (use assms(1) in auto)
  then show ?thesis
    by (rule leads_pthen [where Q = "\<lambda>_ p'. p' = p @ [(x, False)]"]) (use assms(3) in auto)
qed


lemma leads_publish:
  assumes g1: "\<And>ok. G (p @ [(Describe n, ok)])"
    and g2: "\<And>ok0 ok. G (p @ [(Describe n, ok0), (Upload f k, ok)])"
  shows "leads G p
     (pbind (get_stack_output n key) (\<lambda>s3.
        case s3 of
          Some bucket \<Rightarrow>
            if bucket \<noteq> [] then
              pbind (upload_to_s3 bucket f k) (\<lambda>ok.
                if ok then print_success a
                else pthen (print_error b) (pthen (print_info c) (ret ())))
            else print_error d
        | None \<Rightarrow> print_error d))
     (\<lambda>_ p'. \<exists>ok0. p' = p @ [(Describe n, ok0)] \<or>
        (\<exists>ok. p' = p @ [(Describe n, ok0), (Upload f k, ok)]))"
proof (rule leads_pbind_any [OF leads_get_stack_output])
  fix ok
  show "G (p @ [(Describe n, ok)])"
    by (rule g1)
next
  fix s3 ok0
  let ?R = "\<lambda>_ p'. \<exists>ok0. p' = p @ [(Describe n, ok0)] \<or>
        (\<exists>ok. p' = p @ [(Describe n, ok0), (Upload f k, ok)])"
  have skip: "leads G (p @ [(Describe n, ok0)]) (print_error d) ?R"
    by (rule leads_quiet) (auto intro: g1)
  have up: "leads G (p @ [(Describe n, ok0)])
      (pbind (upload_to_s3 bucket f k) (\<lambda>ok.
         if ok then print_success a
         else pthen (print_error b) (pthen (print_info c) (ret ())))) ?R" for bucket
  proof (rule leads_pbind [OF leads_upload_to_s3])
    show "G ((p @ [(Describe n, ok0)]) @ [(Upload f k, False)])"
      using g2 [of ok0 False] by simp
  next
    fix ok p'
    assume "p' = (p @ [(Describe n, ok0)]) @ [(Upload f k, ok)]"
    then have p': "p' = p @ [(Describe n, ok0), (Upload f k, ok)]"
      by simp
    show "leads G p'
        (if ok then print_success a
         else pthen (print_error b) (pthen (print_info c) (ret ()))) ?R"
      unfolding p' by (rule leads_quiet) (auto intro: g2)
  qed
  show "leads G (p @ [(Describe n, ok0)])
      (case s3 of
          Some bucket \<Rightarrow>
            if bucket \<noteq> [] then
              pbind (upload_to_s3 bucket f k) (\<lambda>ok.
                if ok then print_success a
                else pthen (print_error b) (pthen (print_info c) (ret ())))
            else print_error d
        | None \<Rightarrow> print_error d) ?R"
    by (cases s3) (simp_all add: skip up)
qed

lemma create_complete_gated: "create_complete ops \<Longrightarrow> create_gated ops"
  by (auto simp: create_complete_def create_gated_def complete_def)

lemma create_main_leads: "leads create_gated [] create_main (\<lambda>_. create_complete)"
  unfolding create_main_def block.simps
  apply (rule leads_pthen_quiet)
    apply blast
   apply (simp add: create_gated_def gated_def create_plan_def)
  apply (rule leads_pthen_quiet)
    apply blast
   apply (simp add: create_gated_def gated_def create_plan_def)
  apply (rule leads_pthen_quiet)
    apply blast
   apply (simp add: create_gated_def gated_def create_plan_def)
  apply (rule leads_pthen_quiet)
    apply blast
   apply (simp add: create_gated_def gated_def create_plan_def)
  apply (rule leads_refuse [OF leads_create_stack_exists])
     apply (simp add: create_gated_def gated_def create_plan_def)
   apply (simp add: create_gated_def gated_def create_plan_def)
  apply (rule leads_refuse [OF leads_create_stack_exists])
     apply (simp add: create_gated_def gated_def create_plan_def)
   apply (simp add: create_gated_def gated_def create_plan_def)
  apply (rule leads_pthen_quiet)
    apply blast
   apply (simp add: create_gated_def gated_def create_plan_def)
  apply (rule leads_pthen_ret)
   apply (rule create_complete_gated, assumption)
  apply (rule leads_pbind_step [OF leads_read_template])
    apply (simp add: create_gated_def gated_def create_plan_def)
  apply (rule leads_pbind_step [OF leads_read_parameters])
    apply (simp add: create_gated_def gated_def create_plan_def)
  apply (rule leads_gate [OF leads_create_stack])
     apply (simp add: create_gated_def gated_def create_plan_def)
   apply (simp add: create_gated_def gated_def create_plan_def)
  apply (rule leads_gate [OF leads_wait_for_stack_creation])
     apply (simp add: create_gated_def gated_def create_plan_def)
   apply (simp add: create_gated_def gated_def create_plan_def)
  apply (rule leads_pthen_any [OF leads_display_stack_outputs])
    apply (simp add: create_gated_def gated_def create_plan_def)
  apply (rule leads_pthen_quiet)
    apply blast
   apply (simp add: create_gated_def gated_def create_plan_def)
  apply (rule leads_pthen_ret)
   apply (rule create_complete_gated, assumption)
  apply (rule leads_pbind_step [OF leads_read_template])
    apply (simp add: create_gated_def gated_def create_plan_def)
  apply (rule leads_pbind_step [OF leads_read_parameters])
    apply (simp add: create_gated_def gated_def create_plan_def)
  apply (rule leads_gate [OF leads_create_stack])
     apply (simp add: create_gated_def gated_def create_plan_def)
   apply (simp add: create_gated_def gated_def create_plan_def)
  apply (rule leads_gate [OF leads_wait_for_stack_creation])
     apply (simp add: create_gated_def gated_def create_plan_def)
   apply (simp add: create_gated_def gated_def create_plan_def)
  apply (rule leads_pthen_any [OF leads_display_stack_outputs])
    apply (simp add: create_gated_def gated_def create_plan_def)
  apply (rule leads_pthen_quiet)
    apply blast
   apply (simp add: create_gated_def gated_def create_plan_def)
  apply (rule leads_pthen [OF leads_publish])
    apply (simp add: create_gated_def gated_def create_plan_def)
   apply (simp add: create_gated_def gated_def create_plan_def)
  apply (elim exE disjE)
   apply hypsubst
  apply (rule leads_pthen_quiet)
    apply blast
   apply (simp add: create_gated_def gated_def create_plan_def)
  apply (rule leads_pthen_any [where x = "Describe APP_STACK_NAME"])
   apply (rule leads_pbind_any [OF leads_get_stack_output])
    apply (simp add: create_gated_def gated_def create_plan_def)
   apply (rule leads_quiet)
     apply (auto split: option.splits)[1]
    apply (simp add: create_gated_def gated_def create_plan_def)
   apply simp
  apply (rule leads_quiet)
    apply blast
   apply (simp add: create_gated_def gated_def create_plan_def)
  apply (simp add: create_complete_def complete_def gated_def create_plan_def)
  apply hypsubst
  apply (rule leads_pthen_quiet)
    apply blast
   apply (simp add: create_gated_def gated_def create_plan_def)
  apply (rule leads_pthen_any [where x = "Describe APP_STACK_NAME"])
   apply (rule leads_pbind_any [OF leads_get_stack_output])
    apply (simp add: create_gated_def gated_def create_plan_def)
   apply (rule leads_quiet)
     apply (auto split: option.splits)[1]
    apply (simp add: create_gated_def gated_def create_plan_def)
   apply simp
  apply (rule leads_quiet)
    apply blast
   apply (simp add: create_gated_def gated_def create_plan_def)
  apply (simp add: create_complete_def complete_def gated_def create_plan_def)
  done


lemma top_level_operations:
  "operations (snd (top_level (r, s))) = operations (trace s)"
  by (cases "(r, s)" rule: top_level.cases) (simp_all add: report_defs prog_defs)

lemma top_level_code:
  "fst (top_level (r, s)) = (case r of Ok a \<Rightarrow> 0 | Raised e \<Rightarrow> 1 | Exit n \<Rightarrow> n)"
  by (cases "(r, s)" rule: top_level.cases) simp_all

lemma run_create_cases:
  "fst (run_create responses) = 0 \<and> create_complete (operations (snd (run_create responses))) \<or>
   fst (run_create responses) = 1 \<and> create_gated (operations (snd (run_create responses)))"
proof -
  define s where "s = \<lparr>tape = responses, trace = []\<rparr>"
  have run: "run_create responses = top_level (fst (create_main s), snd (create_main s))"
    by (simp add: run_create_def s_def)
  have "operations (trace s) = []"
    by (simp add: s_def)
  with create_main_leads have "case fst (create_main s) of
       Ok a \<Rightarrow> create_complete (operations (trace (snd (create_main s))))
     | Raised e \<Rightarrow> create_gated (operations (trace (snd (create_main s))))
     | Exit n \<Rightarrow> n = 1 \<and> create_gated (operations (trace (snd (create_main s))))"
    unfolding leads_def by blast
  then show ?thesis
    unfolding run top_level_operations top_level_code
    by (cases "fst (create_main s)") simp_all
qed

lemma gated_failure:
  assumes "gated plan ops" and "(x, False) \<in> set ops"
    and "\<forall>need. (x, need) \<in> set plan \<longrightarrow> need = Some True"
  shows "last ops = (x, False)"
proof (cases ops rule: rev_cases)
  case Nil
  with assms(2) show ?thesis
    by simp
next
  case (snoc ys y)
  have "(x, False) \<notin> set ys"
  proof
    assume "(x, False) \<in> set ys"
    then obtain i where i: "i < length ys" "ys ! i = (x, False)"
      by (auto simp: in_set_conv_nth)
    from assms(1) snoc have pre: "prefix (map fst ys @ [fst y]) (map fst plan)"
      and all: "list_all (\<lambda>(did, planned). snd planned = None \<or> snd planned = Some (snd did))
        (zip ys plan)"
      by (simp_all add: gated_def)
    from pre obtain zs where zs: "map fst plan = map fst ys @ fst y # zs"
      by (auto simp: prefix_def)
    then have "length plan = length (map fst ys @ fst y # zs)"
      by (metis length_map)
    with i(1) have len: "i < length plan"
      by simp
    from zs i have "map fst plan ! i = x"
      by (simp add: nth_append)
    with len have x: "fst (plan ! i) = x"
      by simp
    from i(1) len have "(ys ! i, plan ! i) \<in> set (zip ys plan)"
      by (auto simp: in_set_zip)
    with all i have "snd (plan ! i) = None \<or> snd (plan ! i) = Some False"
      by (auto simp: list_all_iff)
    moreover from x len have "(x, snd (plan ! i)) \<in> set plan"
      by (metis nth_mem prod.collapse)
    ultimately show False
      using assms(3) by auto
  qed
  with assms(2) snoc show ?thesis
    by auto
qed

lemma complete_last:
  assumes "complete plan ops" and "plan \<noteq> []"
  shows "fst (last ops) = fst (last plan)"
proof -
  from assms(1) have "prefix (map fst ops) (map fst plan)"
    and "length (map fst ops) = length (map fst plan)"
    by (simp_all add: complete_def gated_def)
  then have "map fst ops = map fst plan"
    by (metis append_eq_conv_conj prefix_def take_all_iff order_refl append_Nil2)
  moreover from this assms(2) have "ops \<noteq> []"
    by auto
  ultimately show ?thesis
    using assms(2) by (metis last_map)
qed

lemma create_stages_needed:
  "x \<in> set create_stages \<Longrightarrow> (x, need) \<in> set (create_plan upload) \<Longrightarrow> need = Some True"
  by (auto simp: create_stages_def create_plan_def split: if_splits)

lemma create_stages_not_last:
  "x \<in> set create_stages \<Longrightarrow> fst (last (create_plan upload)) \<noteq> x"
  by (auto simp: create_stages_def create_plan_def)

text \<open>
  C6. The create flow is strictly sequential and gated. On every tape of responses, the
  operations of the run (each logged when it returns, with its outcome) are the first
  operations of the plan, in the plan's order: the two existence checks, then for the
  network stack and after it for the application stack the reading of the two files, the
  submission, the wait and the display, then the lookup of the bucket, the upload if
  there is a bucket, and the lookup of the address. Every operation but the last one had
  the outcome that lets the flow go on, so an operation is only issued once all the
  earlier ones have returned, the submissions and waits among them with success, and no
  two of them overlap. A run that exits with code 0 went through the whole plan; a run
  that did not exits with code 1. A failed reading, submission or wait is the last
  operation of its run: nothing of a later stage runs, and the exit code is 1.
\<close>

theorem create_flow_gated:
  "create_gated (operations (snd (run_create responses))) \<and>
   (fst (run_create responses) = 0 \<longrightarrow>
      create_complete (operations (snd (run_create responses)))) \<and>
   (\<not> create_complete (operations (snd (run_create responses))) \<longrightarrow>
      fst (run_create responses) = 1) \<and>
   (\<forall>x\<in>set create_stages. (x, False) \<in> set (operations (snd (run_create responses))) \<longrightarrow>
      last (operations (snd (run_create responses))) = (x, False) \<and>
      fst (run_create responses) = 1)"
proof -
  let ?ops = "operations (snd (run_create responses))"
  let ?code = "fst (run_create responses)"
  have gated: "create_gated ?ops"
    using run_create_cases [of responses] create_complete_gated by blast
  have code: "\<not> create_complete ?ops \<longrightarrow> ?code = 1"
    using run_create_cases [of responses] by auto
  have zero: "?code = 0 \<longrightarrow> create_complete ?ops"
    using run_create_cases [of responses] by auto
  have failed: "last ?ops = (x, False) \<and> ?code = 1"
    if x: "x \<in> set create_stages" and f: "(x, False) \<in> set ?ops" for x
  proof -
    from gated obtain upload where g: "gated (create_plan upload) ?ops"
      unfolding create_gated_def by blast
    from g f have l: "last ?ops = (x, False)"
      by (rule gated_failure) (use x create_stages_needed in blast)
    have "\<not> complete (create_plan u) ?ops" for u
    proof
      assume "complete (create_plan u) ?ops"
      then have "fst (last ?ops) = fst (last (create_plan u))"
        by (rule complete_last) (simp add: create_plan_def)
      with l create_stages_not_last [OF x, of u] show False
        by simp
    qed
    then have "\<not> create_complete ?ops"
      by (simp add: create_complete_def)
    with code l show ?thesis
      by simp
  qed
  from gated zero code failed show ?thesis
    by blast
qed


theorem create_flow_gated_witness:
  "fst (run_create
     [Raises (ClientError ''Stack with id udagram-network does not exist''),
      Raises (ClientError ''Stack with id udagram-app does not exist''),
      Content ''Resources:'', Parameters [(''EnvironmentName'', ''Udagram'')],
      StackId ''arn:aws:cloudformation:stack/udagram-network'',
      Status Retry, Status Failure, StackEvents [],
      Content ''Resources:'', Parameters [], Done]) = 1 \<and>
   last (operations (snd (run_create
     [Raises (ClientError ''Stack with id udagram-network does not exist''),
      Raises (ClientError ''Stack with id udagram-app does not exist''),
      Content ''Resources:'', Parameters [(''EnvironmentName'', ''Udagram'')],
      StackId ''arn:aws:cloudformation:stack/udagram-network'',
      Status Retry, Status Failure, StackEvents [],
      Content ''Resources:'', Parameters [], Done]))) =
     (Await ''stack_create_complete'' NETWORK_STACK_NAME, False) \<and>
   operations (snd (run_create
     [Raises (ClientError ''Stack with id udagram-network does not exist''),
      Raises (ClientError ''Stack with id udagram-app does not exist''),
      Content ''Resources:'', Parameters [(''EnvironmentName'', ''Udagram'')],
      StackId ''arn:aws:cloudformation:stack/udagram-network'',
      Status Retry, Status Failure, StackEvents [],
      Content ''Resources:'', Parameters [], Done])) =
     [(Describe NETWORK_STACK_NAME, False), (Describe APP_STACK_NAME, False),
      (Load NETWORK_TEMPLATE, True), (Load NETWORK_PARAMETERS, True),
      (Submit NETWORK_STACK_NAME, True),
      (Await ''stack_create_complete'' NETWORK_STACK_NAME, False)] \<and>
   create_complete (operations (snd (run_create
     [Raises (ClientError ''Stack with id udagram-network does not exist''),
      Raises (ClientError ''Stack with id udagram-app does not exist''),
      Content ''Resources:'', Parameters [(''EnvironmentName'', ''Udagram'')],
      StackId ''arn:aws:cloudformation:stack/udagram-network'',
      Status Retry, Status Success,
      Stacks [\<lparr>StackStatus = ''CREATE_COMPLETE'', Outputs = None\<rparr>],
      Content ''Resources:'', Parameters [(''EnvironmentName'', ''Udagram'')],
      StackId ''arn:aws:cloudformation:stack/udagram-app'',
      Status Success,
      Stacks [\<lparr>StackStatus = ''CREATE_COMPLETE'', Outputs = Some
        [\<lparr>OutputKey = ''S3BucketName'', OutputValue = ''udagram-bucket'',
          Description = None\<rparr>]\<rparr>],
      Stacks [\<lparr>StackStatus = ''CREATE_COMPLETE'', Outputs = Some
        [\<lparr>OutputKey = ''S3BucketName'', OutputValue = ''udagram-bucket'',
          Description = None\<rparr>]\<rparr>],
      Done,
      Stacks [\<lparr>StackStatus = ''CREATE_COMPLETE'', Outputs = Some
        [\<lparr>OutputKey = ''S3BucketName'', OutputValue = ''udagram-bucket'',
          Description = None\<rparr>]\<rparr>]])))"
proof -
  have stopped: "operations (snd (run_create
     [Raises (ClientError ''Stack with id udagram-network does not exist''),
      Raises (ClientError ''Stack with id udagram-app does not exist''),
      Content ''Resources:'', Parameters [(''EnvironmentName'', ''Udagram'')],
      StackId ''arn:aws:cloudformation:stack/udagram-network'',
      Status Retry, Status Failure, StackEvents [],
      Content ''Resources:'', Parameters [], Done])) =
     [(Describe NETWORK_STACK_NAME, False), (Describe APP_STACK_NAME, False),
      (Load NETWORK_TEMPLATE, True), (Load NETWORK_PARAMETERS, True),
      (Submit NETWORK_STACK_NAME, True),
      (Await ''stack_create_complete'' NETWORK_STACK_NAME, False)]"
    by code_simp
  have finished: "fst (run_create
     [Raises (ClientError ''Stack with id udagram-network does not exist''),
      Raises (ClientError ''Stack with id udagram-app does not exist''),
      Content ''Resources:'', Parameters [(''EnvironmentName'', ''Udagram'')],
      StackId ''arn:aws:cloudformation:stack/udagram-network'',
      Status Retry, Status Success,
      Stacks [\<lparr>StackStatus = ''CREATE_COMPLETE'', Outputs = None\<rparr>],
      Content ''Resources:'', Parameters [(''EnvironmentName'', ''Udagram'')],
      StackId ''arn:aws:cloudformation:stack/udagram-app'',
      Status Success,
      Stacks [\<lparr>StackStatus = ''CREATE_COMPLETE'', Outputs = Some
        [\<lparr>OutputKey = ''S3BucketName'', OutputValue = ''udagram-bucket'',
          Description = None\<rparr>]\<rparr>],
      Stacks [\<lparr>StackStatus = ''CREATE_COMPLETE'', Outputs = Some
        [\<lparr>OutputKey = ''S3BucketName'', OutputValue = ''udagram-bucket'',
          Description = None\<rparr>]\<rparr>],
      Done,
      Stacks [\<lparr>StackStatus = ''CREATE_COMPLETE'', Outputs = Some
        [\<lparr>OutputKey = ''S3BucketName'', OutputValue = ''udagram-bucket'',
          Description = None\<rparr>]\<rparr>]]) = 0"
    by code_simp
  show ?thesis
    using create_flow_gated [of "[Raises (ClientError ''Stack with id udagram-network does not exist''),
      Raises (ClientError ''Stack with id udagram-app does not exist''),
      Content ''Resources:'', Parameters [(''EnvironmentName'', ''Udagram'')],
      StackId ''arn:aws:cloudformation:stack/udagram-network'',
      Status Retry, Status Failure, StackEvents [],
      Content ''Resources:'', Parameters [], Done]"]
      create_flow_gated [of "[Raises (ClientError ''Stack with id udagram-network does not exist''),
      Raises (ClientError ''Stack with id udagram-app does not exist''),
      Content ''Resources:'', Parameters [(''EnvironmentName'', ''Udagram'')],
      StackId ''arn:aws:cloudformation:stack/udagram-network'',
      Status Retry, Status Success,
      Stacks [\<lparr>StackStatus = ''CREATE_COMPLETE'', Outputs = None\<rparr>],
      Content ''Resources:'', Parameters [(''EnvironmentName'', ''Udagram'')],
      StackId ''arn:aws:cloudformation:stack/udagram-app'',
      Status Success,
      Stacks [\<lparr>StackStatus = ''CREATE_COMPLETE'', Outputs = Some
        [\<lparr>OutputKey = ''S3BucketName'', OutputValue = ''udagram-bucket'',
          Description = None\<rparr>]\<rparr>],
      Stacks [\<lparr>StackStatus = ''CREATE_COMPLETE'', Outputs = Some
        [\<lparr>OutputKey = ''S3BucketName'', OutputValue = ''udagram-bucket'',
          Description = None\<rparr>]\<rparr>],
      Done,
      Stacks [\<lparr>StackStatus = ''CREATE_COMPLETE'', Outputs = Some
        [\<lparr>OutputKey = ''S3BucketName'', OutputValue = ''udagram-bucket'',
          Description = None\<rparr>]\<rparr>]]"]
    by (simp add: stopped finished create_stages_def)
qed
subsection \<open>A failed upload\<close>

















subsection \<open>The delete flow with both stacks present\<close>











end
